theory Spec2Isabelle
  imports Main "HOL-Library.Word" "HOL-Library.Sublist"
begin

section \<open>Common types\<close>

type_synonym byte = "8 word"
type_synonym bytes = "byte list"
type_synonym uint8 = "8 word"

section \<open>h2mux: the muxed stream's flow-control core\<close>

text \<open>
  The repository's \<^verbatim>\<open>h2mux\<close> test file (\<^verbatim>\<open>TestFlowControlSingleStream\<close>,
  \<^verbatim>\<open>TestMuxedStreamEOF\<close>) builds \<^verbatim>\<open>MuxedStream\<close> values and calls
  \<^verbatim>\<open>consumeReceiveWindow\<close>, \<^verbatim>\<open>getChunk\<close>, \<^verbatim>\<open>Close\<close>, \<^verbatim>\<open>Read\<close> and
  \<^verbatim>\<open>Write\<close>; the bodies of these methods are not among the source files. The record
  below has the fields the test initialises and the specification's data model lists; the
  window fields are byte counts (the test declares them \<^verbatim>\<open>uint32\<close>), read here as
  natural numbers.
\<close>

datatype stream_error = EndOfStream

record SharedBuffer =
  buffered :: bytes
  closed :: bool

record MuxedStream =
  streamID :: nat
  readBuffer :: SharedBuffer
  writeBuffer :: bytes
  writeHeaders :: "(string \<times> string) list"
  headersSent :: bool
  writeEOF :: bool
  receiveWindow :: nat
  receiveWindowCurrentMax :: nat
  receiveWindowMax :: nat
  windowUpdate :: nat
  sendWindow :: nat

record streamChunk =
  chunk_streamID :: nat
  chunk_headers :: "(string \<times> string) list option"
  chunk_data :: bytes
  chunk_windowUpdate :: nat

text \<open>
  Modelled from the spec: the body of \<^verbatim>\<open>MuxedStream.consumeReceiveWindow\<close>, which is
  missing from the source files. Section 3: ``\<^verbatim>\<open>consumeReceiveWindow(R)\<close> returns false iff
  R would require \<^verbatim>\<open>currentMax\<close> to exceed \<^verbatim>\<open>receiveWindowMax\<close>; in that case state is
  unchanged'' (a window that takes in R bytes is at least R bytes large, and no window is
  larger than \<^verbatim>\<open>receiveWindowMax\<close>; section 8 puts the boundary at
  \<^verbatim>\<open>receiveWindowMax + 1\<close>); ``new \<^verbatim>\<open>receiveWindow = old - R\<close> (clamped at 0); if
  \<^verbatim>\<open>receiveWindow\<close> falls below \<^verbatim>\<open>currentMax/2\<close>, \<^verbatim>\<open>currentMax\<close> doubles (capped at
  \<^verbatim>\<open>receiveWindowMax\<close>)''; section 4.3: ``stages a \<^verbatim>\<open>windowUpdate\<close> equal to
  \<^verbatim>\<open>currentMax - receiveWindow\<close>''. ``Below \<^verbatim>\<open>currentMax/2\<close>'' is read as the exact
  half, twice the window being less than the current maximum: scenario S1 of section 8
  doubles the window at \<open>receiveWindow = 32767\<close> with \<open>currentMax = 65535\<close>.
\<close>

definition consumeReceiveWindow :: "nat \<Rightarrow> MuxedStream \<Rightarrow> bool \<times> MuxedStream" where
  "consumeReceiveWindow dataLen s =
     (if receiveWindowMax s < dataLen then (False, s)
      else
        let rw = (if dataLen \<le> receiveWindow s then receiveWindow s - dataLen else 0) in
        if 2 * rw < receiveWindowCurrentMax s then
          let newMax = min (2 * receiveWindowCurrentMax s) (receiveWindowMax s) in
          (True, s\<lparr>receiveWindow := rw,
                   receiveWindowCurrentMax := newMax,
                   windowUpdate := newMax - rw\<rparr>)
        else (True, s\<lparr>receiveWindow := rw\<rparr>))"

text \<open>
  Modelled from the spec: the body of \<^verbatim>\<open>MuxedStream.getChunk\<close>, which is missing from the
  source files. Section 4.3: it ``produces the next outbound frame-bearing snapshot:
  \<^verbatim>\<open>{streamID, headers?, data \<le> min(sendWindow, frameCap), windowUpdate}\<close> and atomically
  zeroes \<^verbatim>\<open>windowUpdate\<close> and advances \<^verbatim>\<open>receiveWindow\<close> by that credit''; headers ``are
  sent exactly once per direction''. The data taken leaves the write buffer and is charged
  to \<^verbatim>\<open>sendWindow\<close> (the test's comment: ``Only sending WINDOW_UPDATE frame, so sendWindow
  should never change'').
\<close>

definition getChunk :: "nat \<Rightarrow> MuxedStream \<Rightarrow> streamChunk \<times> MuxedStream" where
  "getChunk frameCap s =
     (let n = min (min (sendWindow s) frameCap) (length (writeBuffer s));
          chunk = \<lparr>chunk_streamID = streamID s,
                   chunk_headers = (if headersSent s then None else Some (writeHeaders s)),
                   chunk_data = take n (writeBuffer s),
                   chunk_windowUpdate = windowUpdate s\<rparr>
      in (chunk, s\<lparr>writeBuffer := drop n (writeBuffer s),
                    headersSent := True,
                    sendWindow := sendWindow s - n,
                    receiveWindow := receiveWindow s + windowUpdate s,
                    windowUpdate := 0\<rparr>))"

text \<open>
  Modelled from the spec: the bodies of \<^verbatim>\<open>MuxedStream.Close\<close>, \<^verbatim>\<open>Read\<close> and
  \<^verbatim>\<open>Write\<close>, which are missing from the source files. Section 4.3: \<^verbatim>\<open>Close()\<close> is
  ``idempotent; wakes any reader with end-of-stream after drain; causes subsequent writes to
  fail with end-of-stream''; \<^verbatim>\<open>Read\<close> and \<^verbatim>\<open>Write\<close> ``delegate to the shared buffers'';
  \<^verbatim>\<open>Write\<close> ``blocks (or queues)'' when the send window is exhausted: here it queues in
  the unbounded write buffer. Section 4.1: ``Closing the producer side causes subsequent
  \<^verbatim>\<open>Read\<close>s that exhaust the buffer to return end-of-stream''; section 5: \<^verbatim>\<open>Read\<close>
  ``suspends when the read buffer is empty and not closed'' (the result \<open>None\<close>).
\<close>

definition MuxedStream_Close :: "MuxedStream \<Rightarrow> MuxedStream" where
  "MuxedStream_Close s = s\<lparr>readBuffer := (readBuffer s)\<lparr>closed := True\<rparr>, writeEOF := True\<rparr>"

definition MuxedStream_Read ::
  "nat \<Rightarrow> MuxedStream \<Rightarrow> ((bytes \<times> stream_error option) \<times> MuxedStream) option" where
  "MuxedStream_Read plen s =
     (let rb = readBuffer s in
      if buffered rb \<noteq> [] then
        Some ((take plen (buffered rb), None),
              s\<lparr>readBuffer := rb\<lparr>buffered := drop plen (buffered rb)\<rparr>\<rparr>)
      else if closed rb then Some (([], Some EndOfStream), s)
      else None)"

definition MuxedStream_Write ::
  "bytes \<Rightarrow> MuxedStream \<Rightarrow> (nat \<times> stream_error option) \<times> MuxedStream" where
  "MuxedStream_Write p s =
     (if writeEOF s then ((0, Some EndOfStream), s)
      else ((length p, None), s\<lparr>writeBuffer := writeBuffer s @ p\<rparr>))"

text \<open>A run of \<^verbatim>\<open>consumeReceiveWindow\<close> calls that all return true.\<close>

fun consumeAll :: "nat list \<Rightarrow> MuxedStream \<Rightarrow> MuxedStream option" where
  "consumeAll [] s = Some s"
| "consumeAll (r # rs) s =
     (case consumeReceiveWindow r s of
        (True, s') \<Rightarrow> consumeAll rs s'
      | (False, _) \<Rightarrow> None)"

text \<open>The invariant of section 3 on the receive-window fields.\<close>

definition window_inv :: "MuxedStream \<Rightarrow> bool" where
  "window_inv s \<longleftrightarrow>
     receiveWindow s \<le> receiveWindowCurrentMax s \<and>
     receiveWindowCurrentMax s \<le> receiveWindowMax s"

text \<open>
  The pending credit fits the window: below half of the current maximum the staged
  \<^verbatim>\<open>windowUpdate\<close> fills the window up to the current maximum, otherwise none is staged.
\<close>

definition credit_staged :: "MuxedStream \<Rightarrow> bool" where
  "credit_staged s \<longleftrightarrow>
     (if 2 * receiveWindow s < receiveWindowCurrentMax s
      then receiveWindow s + windowUpdate s = receiveWindowCurrentMax s
      else windowUpdate s = 0)"

text \<open>
  The stream of \<^verbatim>\<open>TestFlowControlSingleStream\<close>: \<^verbatim>\<open>testWindowSize = 65535\<close>,
  \<^verbatim>\<open>testMaxWindowSize = testWindowSize << 2\<close>, empty buffers, every other field zero.
\<close>

definition testWindowSize :: nat where
  "testWindowSize = 65535"

definition testMaxWindowSize :: nat where
  "testMaxWindowSize = testWindowSize * 4"

definition test_stream :: MuxedStream where
  "test_stream =
     \<lparr>streamID = 0,
      readBuffer = \<lparr>buffered = [], closed = False\<rparr>,
      writeBuffer = [],
      writeHeaders = [],
      headersSent = False,
      writeEOF = False,
      receiveWindow = testWindowSize,
      receiveWindowCurrentMax = testWindowSize,
      receiveWindowMax = testMaxWindowSize,
      windowUpdate = 0,
      sendWindow = testWindowSize\<rparr>"

section \<open>Errors\<close>

text \<open>
  Go \<^verbatim>\<open>error\<close> values of the packages below. \<open>opaque\<close> is an error handed over by a
  collaborator (the operating system, the muxer, an RPC peer), identified by its
  \<^verbatim>\<open>Error()\<close> text; \<open>errorf\<close> is \<^verbatim>\<open>fmt.Errorf\<close> with the formatted message;
  \<open>wrapf\<close> is \<^verbatim>\<open>errors.Wrap\<close>/\<^verbatim>\<open>errors.Wrapf\<close>.
\<close>

record TunnelRegistrationError =
  err_text :: string
  err_permanent :: bool

datatype num_error_kind = ErrSyntax | ErrRange

datatype go_error =
    opaque string
  | errorf string
  | wrapf string go_error
  | NumError string string num_error_kind
  | errDuplicationConnection
  | serverRegisterTunnelError TunnelRegistrationError bool
  | serverRegistrationErrorFromRPC string
  | errInvalidJSONCredential string go_error
  | expect_echo_reply string
  | not_in_ping_group int int int

section \<open>connection: tunnel registration\<close>

datatype rpcName = register | reconnect | unregister | authenticate

fun rpcName_string :: "rpcName \<Rightarrow> string" where
  "rpcName_string register = ''register''"
| "rpcName_string reconnect = ''reconnect''"
| "rpcName_string unregister = ''unregister''"
| "rpcName_string authenticate = '' authenticate''"

datatype observer_event =
    RegisteringEvent
  | URLEvent string
  | ConnectedEvent uint8 string

text \<open>
  The observer: its Prometheus counter vectors, indexed by their label values, the
  \<^verbatim>\<open>tunnelsHA\<close> table and the events it has sent. Log lines are left out.
\<close>

record Observer =
  regFail :: "string \<times> string \<Rightarrow> nat"
  regSuccess :: "string \<Rightarrow> nat"
  userHostnamesCounts :: "string \<Rightarrow> nat"
  tunnelsHA :: "uint8 \<rightharpoonup> string"
  events :: "observer_event list"

definition Inc :: "'l \<Rightarrow> ('l \<Rightarrow> nat) \<Rightarrow> ('l \<Rightarrow> nat)" where
  "Inc l c = c(l := c l + 1)"

text \<open>
  Modelled from the spec: the implementation behind the \<^verbatim>\<open>CredentialManager\<close> interface,
  which is missing from the source files (only the interface is declared). Section 2: the
  credential store is an ``in-memory digest/token bag per connection''; section 3: per edge
  connection ``a reconnect token (opaque bytes), an event digest and a conn digest''.
\<close>

record CredentialManager =
  reconnectToken :: "go_error + bytes"
  eventDigests :: "uint8 \<rightharpoonup> bytes"
  connDigests :: "uint8 \<rightharpoonup> bytes"

definition ReconnectToken :: "CredentialManager \<Rightarrow> go_error + bytes" where
  "ReconnectToken cm = reconnectToken cm"

definition EventDigest :: "CredentialManager \<Rightarrow> uint8 \<Rightarrow> go_error + bytes" where
  "EventDigest cm connID =
     (case eventDigests cm connID of
        None \<Rightarrow> Inl (errorf ''no event digest for connection'')
      | Some d \<Rightarrow> Inr d)"

definition SetEventDigest :: "uint8 \<Rightarrow> bytes \<Rightarrow> CredentialManager \<Rightarrow> CredentialManager" where
  "SetEventDigest connID digest cm = cm\<lparr>eventDigests := (eventDigests cm)(connID \<mapsto> digest)\<rparr>"

definition ConnDigest :: "CredentialManager \<Rightarrow> uint8 \<Rightarrow> go_error + bytes" where
  "ConnDigest cm connID =
     (case connDigests cm connID of
        None \<Rightarrow> Inl (errorf ''no conn digest for connection'')
      | Some d \<Rightarrow> Inr d)"

definition SetConnDigest :: "uint8 \<Rightarrow> bytes \<Rightarrow> CredentialManager \<Rightarrow> CredentialManager" where
  "SetConnDigest connID digest cm = cm\<lparr>connDigests := (connDigests cm)(connID \<mapsto> digest)\<rparr>"

text \<open>
  The reply of a \<^verbatim>\<open>RegisterTunnel\<close> or \<^verbatim>\<open>ReconnectTunnel\<close> RPC. \<open>DeserializeError\<close>
  holds what \<^verbatim>\<open>registration.DeserializeError()\<close> returns (\<open>None\<close> for nil).
\<close>

record TunnelRegistration =
  DeserializeError :: "TunnelRegistrationError option"
  Url :: string
  LogLines :: "string list"
  reg_TunnelID :: string
  reg_EventDigest :: bytes
  reg_ConnDigest :: bytes

record ConnectionDetails =
  Location :: string
  conn_UUID :: string

record ClassicTunnelConfig =
  Hostname :: string
  OriginCert :: bytes
  UseReconnectToken :: bool

definition IsTrialZone :: "ClassicTunnelConfig \<Rightarrow> bool" where
  "IsTrialZone c \<longleftrightarrow> Hostname c = []"

text \<open>
  The state the registration functions act on: the connection's observer and the credential
  manager passed to them.
\<close>

record reg_state =
  observer :: Observer
  credentialManager :: CredentialManager

text \<open>
  \<^verbatim>\<open>registerConnection\<close>. \<open>dup\<close> is the constant \<^verbatim>\<open>DuplicateConnectionError\<close>, declared
  outside the source files; \<open>rpc\<close> is the outcome of the \<^verbatim>\<open>RegisterConnection\<close> call,
  an error given by its \<^verbatim>\<open>Error()\<close> text or the connection details.
\<close>

definition registerConnection ::
  "string \<Rightarrow> uint8 \<Rightarrow> string + ConnectionDetails \<Rightarrow> Observer \<Rightarrow> go_error option \<times> Observer" where
  "registerConnection dup connIndex rpc ob =
     (case rpc of
        Inl err \<Rightarrow>
          if err = dup then
            (Some errDuplicationConnection,
             ob\<lparr>regFail := Inc (''dup_edge_conn'', ''registerConnection'') (regFail ob)\<rparr>)
          else
            (Some (serverRegistrationErrorFromRPC err),
             ob\<lparr>regFail := Inc (''server_error'', ''registerConnection'') (regFail ob)\<rparr>)
      | Inr conn \<Rightarrow>
          (None,
           ob\<lparr>regSuccess := Inc ''registerConnection'' (regSuccess ob),
              events := events ob @ [ConnectedEvent connIndex (Location conn)]\<rparr>))"

definition processRegisterTunnelError ::
  "string \<Rightarrow> TunnelRegistrationError \<Rightarrow> rpcName \<Rightarrow> Observer \<Rightarrow> go_error \<times> Observer" where
  "processRegisterTunnelError dup err name ob =
     (if err_text err = dup then
        (errDuplicationConnection,
         ob\<lparr>regFail := Inc (''dup_edge_conn'', rpcName_string name) (regFail ob)\<rparr>)
      else
        (serverRegisterTunnelError err (err_permanent err),
         ob\<lparr>regFail := Inc (''server_error'', rpcName_string name) (regFail ob)\<rparr>))"

text \<open>
  \<^verbatim>\<open>processRegistrationSuccess\<close>. \<open>logTrialHostname\<close> stands for the observer's method of
  that name, whose body is outside the source files; only its error result matters here.
\<close>

definition processRegistrationSuccess ::
  "(TunnelRegistration \<Rightarrow> go_error option) \<Rightarrow> uint8 \<Rightarrow> TunnelRegistration \<Rightarrow> rpcName \<Rightarrow>
   ClassicTunnelConfig \<Rightarrow> reg_state \<Rightarrow> go_error option \<times> reg_state" where
  "processRegistrationSuccess logTrialHostname connIndex registration name classicTunnel st =
     (let ob1 = (if reg_TunnelID registration \<noteq> []
                 then (observer st)\<lparr>tunnelsHA :=
                        (tunnelsHA (observer st))(connIndex \<mapsto> reg_TunnelID registration)\<rparr>
                 else observer st);
          trial = (if IsTrialZone classicTunnel then logTrialHostname registration else None)
      in case trial of
           Some err \<Rightarrow> (Some err, st\<lparr>observer := ob1\<rparr>)
         | None \<Rightarrow>
             (None,
              st\<lparr>observer := ob1\<lparr>userHostnamesCounts :=
                                    Inc (Url registration) (userHostnamesCounts ob1),
                                  regSuccess := Inc (rpcName_string name) (regSuccess ob1)\<rparr>,
                 credentialManager := SetConnDigest connIndex (reg_ConnDigest registration)
                                  (credentialManager st)\<rparr>))"

text \<open>
  \<^verbatim>\<open>registerTunnel\<close>. \<open>newRPCStream\<close> is the error of opening the RPC stream (\<open>None\<close>
  when it opens); \<open>registration\<close> is the server's reply to \<^verbatim>\<open>RegisterTunnel\<close>.
\<close>

definition registerTunnel ::
  "string \<Rightarrow> (TunnelRegistration \<Rightarrow> go_error option) \<Rightarrow> uint8 \<Rightarrow> go_error option \<Rightarrow>
   TunnelRegistration \<Rightarrow> ClassicTunnelConfig \<Rightarrow> reg_state \<Rightarrow> go_error option \<times> reg_state" where
  "registerTunnel dup logTrialHostname connIndex newRPCStream registration classicTunnel st =
     (let st1 = st\<lparr>observer := (observer st)\<lparr>events := events (observer st) @ [RegisteringEvent]\<rparr>\<rparr>
      in case newRPCStream of
           Some err \<Rightarrow> (Some err, st1)
         | None \<Rightarrow>
             (case DeserializeError registration of
                Some registrationErr \<Rightarrow>
                  (let (e, ob) = processRegisterTunnelError dup registrationErr register (observer st1)
                   in (Some e, st1\<lparr>observer := ob\<rparr>))
              | None \<Rightarrow>
                  (let ob2 = (observer st1)\<lparr>events := events (observer st1) @ [URLEvent (Url registration)]\<rparr>;
                       st2 = st1\<lparr>observer := ob2,
                                 credentialManager := SetEventDigest connIndex (reg_EventDigest registration)
                                                  (credentialManager st1)\<rparr>
                   in processRegistrationSuccess logTrialHostname connIndex registration register
                        classicTunnel st2)))"

text \<open>
  \<^verbatim>\<open>reconnectTunnel\<close>. \<open>ReconnectTunnel\<close> is the server's reply as a function of the token
  and the two digests sent to it.
\<close>

definition reconnectTunnel ::
  "string \<Rightarrow> (TunnelRegistration \<Rightarrow> go_error option) \<Rightarrow> uint8 \<Rightarrow> go_error option \<Rightarrow>
   (bytes \<Rightarrow> bytes \<Rightarrow> bytes \<Rightarrow> TunnelRegistration) \<Rightarrow> ClassicTunnelConfig \<Rightarrow> reg_state \<Rightarrow>
   go_error option \<times> reg_state" where
  "reconnectTunnel dup logTrialHostname connIndex newRPCStream ReconnectTunnel classicTunnel st =
     (case ReconnectToken (credentialManager st) of
        Inl err \<Rightarrow> (Some err, st)
      | Inr token \<Rightarrow>
          (case EventDigest (credentialManager st) connIndex of
             Inl err \<Rightarrow> (Some err, st)
           | Inr eventDigest \<Rightarrow>
               (case ConnDigest (credentialManager st) connIndex of
                  Inl err \<Rightarrow> (Some err, st)
                | Inr connDigest \<Rightarrow>
                    (case newRPCStream of
                       Some err \<Rightarrow> (Some err, st)
                     | None \<Rightarrow>
                         (let registration = ReconnectTunnel token eventDigest connDigest
                          in case DeserializeError registration of
                               Some registrationErr \<Rightarrow>
                                 (let (e, ob) = processRegisterTunnelError dup registrationErr
                                                  reconnect (observer st)
                                  in (Some e, st\<lparr>observer := ob\<rparr>))
                             | None \<Rightarrow>
                                 processRegistrationSuccess logTrialHostname connIndex registration
                                   reconnect classicTunnel st)))))"

section \<open>ingress: the ICMP proxy for Linux\<close>

subsection \<open>Pre-flight\<close>

datatype netip_Addr = Addr4 "32 word" | Addr6 "128 word" | AddrZero


definition pingGroupPath :: string where
  "pingGroupPath = ''/proc/sys/net/ipv4/ping_group_range''"

definition is_digit :: "char \<Rightarrow> bool" where
  "is_digit c \<longleftrightarrow> 48 \<le> (of_char c :: nat) \<and> (of_char c :: nat) \<le> 57"

definition digit_val :: "char \<Rightarrow> nat" where
  "digit_val c = of_char c - 48"

text \<open>
  The matches of \<^verbatim>\<open>findGroupIDRegex\<close>, the regular expression \<^verbatim>\<open>\d+\<close>: the maximal runs
  of ASCII digits, from left to right. \<open>cur\<close> is the run being read.
\<close>

fun digit_runs :: "string \<Rightarrow> string \<Rightarrow> string list" where
  "digit_runs cur [] = (if cur = [] then [] else [cur])"
| "digit_runs cur (c # cs) =
     (if is_digit c then digit_runs (cur @ [c]) cs
      else if cur = [] then digit_runs [] cs
      else cur # digit_runs [] cs)"

definition FindAll :: "string \<Rightarrow> nat \<Rightarrow> string list" where
  "FindAll b n = take n (digit_runs [] b)"

text \<open>
  \<^verbatim>\<open>strconv.ParseUint(s, 10, 32)\<close>: the digits are read from the left, a character that
  is no digit is a syntax error, a value above \<open>2^32 - 1\<close> a range error.
\<close>

fun parse_digits :: "nat \<Rightarrow> string \<Rightarrow> num_error_kind + nat" where
  "parse_digits n [] = Inr n"
| "parse_digits n (c # cs) =
     (if \<not> is_digit c then Inl ErrSyntax
      else if 10 * n + digit_val c > 2 ^ 32 - 1 then Inl ErrRange
      else parse_digits (10 * n + digit_val c) cs)"

text \<open>\<^verbatim>\<open>strconv.ParseInt(s, 10, 32)\<close>: an optional sign, then the digits; the value must fit
  a signed 32-bit integer.\<close>

definition ParseInt32 :: "string \<Rightarrow> go_error + int" where
  "ParseInt32 s =
     (if s = [] then Inl (NumError ''ParseInt'' s ErrSyntax)
      else
        let neg = (hd s = CHR ''-'');
            ds = (if hd s = CHR ''+'' \<or> hd s = CHR ''-'' then tl s else s)
        in if ds = [] then Inl (NumError ''ParseInt'' s ErrSyntax)
           else case parse_digits 0 ds of
                  Inl k \<Rightarrow> Inl (NumError ''ParseInt'' s k)
                | Inr un \<Rightarrow>
                    if \<not> neg \<and> un \<ge> 2 ^ 31 then Inl (NumError ''ParseInt'' s ErrRange)
                    else if neg \<and> un > 2 ^ 31 then Inl (NumError ''ParseInt'' s ErrRange)
                    else Inr (if neg then - int un else int un))"

text \<open>
  \<^verbatim>\<open>checkInPingGroup\<close>. \<open>ReadFile\<close> is the outcome of \<^verbatim>\<open>os.ReadFile(pingGroupPath)\<close>,
  \<open>Getgid\<close> the process's group ID; the result is the error returned (\<open>None\<close> for nil).
\<close>

definition checkInPingGroup :: "go_error + string \<Rightarrow> int \<Rightarrow> go_error option" where
  "checkInPingGroup ReadFile Getgid =
     (case ReadFile of
        Inl err \<Rightarrow> Some err
      | Inr file \<Rightarrow>
          (let groupID = Getgid;
               found = FindAll file 2
           in if length found = 2 then
                (case ParseInt32 (found ! 0) of
                   Inl err \<Rightarrow> Some (wrapf ''failed to determine minimum ping group ID'' err)
                 | Inr groupMin \<Rightarrow>
                     (case ParseInt32 (found ! 1) of
                        Inl err \<Rightarrow> Some (wrapf ''failed to determine minimum ping group ID'' err)
                      | Inr groupMax \<Rightarrow>
                          if groupID < groupMin \<or> groupID > groupMax
                          then Some (not_in_ping_group groupID groupMin groupMax)
                          else None))
              else Some (errorf (''did not find group range in '' @ pingGroupPath))))"




subsection \<open>The response listener\<close>

text \<open>
  One turn of the listener's loop, as the environment decides it: what
  \<^verbatim>\<open>flow.originConn.ReadFrom\<close> returns, and the error \<^verbatim>\<open>flow.returnToSrc\<close> returns
  if the turn gets that far.
\<close>

record 'd turn =
  ReadFrom :: "go_error + 'd"
  returnToSrc :: "go_error option"

text \<open>
  \<^verbatim>\<open>handleResponse\<close>. \<open>parseReply\<close>, \<open>isEchoReply\<close> and \<open>msgType\<close> (the name of the
  reply's ICMP type) stand for the functions of those names, whose bodies are outside the
  source files. The result is \<^verbatim>\<open>(retryableErr, err)\<close>.
\<close>

definition handleResponse ::
  "('d \<Rightarrow> go_error + 'r) \<Rightarrow> ('r \<Rightarrow> bool) \<Rightarrow> ('r \<Rightarrow> string) \<Rightarrow> 'd turn \<Rightarrow> bool \<times> go_error option" where
  "handleResponse parseReply isEchoReply msgType t =
     (case ReadFrom t of
        Inl err \<Rightarrow> (False, Some err)
      | Inr dgram \<Rightarrow>
          (case parseReply dgram of
             Inl err \<Rightarrow> (True, Some err)
           | Inr reply \<Rightarrow>
               if \<not> isEchoReply reply then (True, Some (expect_echo_reply (msgType reply)))
               else
                 (case returnToSrc t of
                    Some err \<Rightarrow> (True, Some err)
                  | None \<Rightarrow> (True, None))))"

text \<open>
  \<^verbatim>\<open>listenResponse\<close>: the loop runs one turn after the other and returns only from inside
  the loop. The list holds the turns the environment has offered so far; \<open>None\<close> says that
  the loop has taken them all and is waiting in \<^verbatim>\<open>ReadFrom\<close> for the next.
\<close>

fun listenResponse ::
  "('d \<Rightarrow> go_error + 'r) \<Rightarrow> ('r \<Rightarrow> bool) \<Rightarrow> ('r \<Rightarrow> string) \<Rightarrow> 'd turn list \<Rightarrow> go_error option" where
  "listenResponse parseReply isEchoReply msgType [] = None"
| "listenResponse parseReply isEchoReply msgType (t # ts) =
     (case handleResponse parseReply isEchoReply msgType t of
        (retryable, err) \<Rightarrow>
          if err \<noteq> None \<and> \<not> retryable then err
          else listenResponse parseReply isEchoReply msgType ts)"

text \<open>
  Modelled from the spec: the body of \<^verbatim>\<open>FunnelTracker.Unregister\<close>, which is missing from
  the source files. Section 4.6: ``\<^verbatim>\<open>Unregister(key, funnel)\<close> removes only if the current
  value equals \<^verbatim>\<open>funnel\<close>''.
\<close>

definition Unregister :: "'k \<Rightarrow> 'f \<Rightarrow> ('k \<rightharpoonup> 'f) \<Rightarrow> ('k \<rightharpoonup> 'f)" where
  "Unregister funnelID funnel tracker =
     (if tracker funnelID = Some funnel then tracker(funnelID := None) else tracker)"

text \<open>
  The goroutine that \<^verbatim>\<open>Request\<close> starts for a new flow: it runs \<^verbatim>\<open>listenResponse\<close> and,
  by its \<^verbatim>\<open>defer\<close>, unregisters the flow when that returns. The result is the tracker
  and whether the goroutine has ended.
\<close>

definition listener_goroutine ::
  "('d \<Rightarrow> go_error + 'r) \<Rightarrow> ('r \<Rightarrow> bool) \<Rightarrow> ('r \<Rightarrow> string) \<Rightarrow> 'k \<Rightarrow> 'f \<Rightarrow> 'd turn list \<Rightarrow>
   ('k \<rightharpoonup> 'f) \<Rightarrow> ('k \<rightharpoonup> 'f) \<times> bool" where
  "listener_goroutine parseReply isEchoReply msgType funnelID icmpFlow turns tracker =
     (case listenResponse parseReply isEchoReply msgType turns of
        None \<Rightarrow> (tracker, False)
      | Some err \<Rightarrow> (Unregister funnelID icmpFlow tracker, True))"

section \<open>tunnel: credentials and tunnel names\<close>

type_synonym uuid = "128 word"

definition uuid_Nil :: uuid where
  "uuid_Nil = 0"

record Credentials =
  AccountTag :: string
  TunnelSecret :: bytes
  TunnelID :: uuid
  TunnelName :: string

definition zero_Credentials :: Credentials where
  "zero_Credentials = \<lparr>AccountTag = [], TunnelSecret = [], TunnelID = uuid_Nil, TunnelName = []\<rparr>"

datatype CredFinder = staticPath string | searchByID uuid

text \<open>\<^verbatim>\<open>credentialFinder\<close>; \<open>credFile\<close> is the value of the option \<^verbatim>\<open>CredFileFlag\<close>.\<close>

definition credentialFinder :: "string \<Rightarrow> uuid \<Rightarrow> CredFinder" where
  "credentialFinder credFile tunnelID =
     (if credFile \<noteq> [] then staticPath credFile else searchByID tunnelID)"

text \<open>
  The surroundings of the credential functions: the two options read from the command
  line, \<^verbatim>\<open>CredFinder.Path\<close>, the file system's \<^verbatim>\<open>readFile\<close>, and \<^verbatim>\<open>json.Unmarshal\<close>
  into a \<^verbatim>\<open>Credentials\<close> value, which gives the value as it leaves the struct (filled as
  far as decoding got) and the error.
\<close>

record cred_env =
  CredContentsFlag :: string
  CredFileFlag :: string
  finder_Path :: "CredFinder \<Rightarrow> go_error + string"
  readFile :: "string \<Rightarrow> go_error + string"
  json_Unmarshal :: "string \<Rightarrow> Credentials \<Rightarrow> Credentials \<times> go_error option"

definition HasSuffix :: "string \<Rightarrow> string \<Rightarrow> bool" where
  "HasSuffix s suf \<longleftrightarrow> suffix suf s"

text \<open>The message for a credentials path that ends in \<^verbatim>\<open>.pem\<close>; \<open>CHR 0x60\<close> is the backquote.\<close>

definition pem_msg :: string where
  "pem_msg =
     ''The tunnel credentials file should be .json but you gave a .pem. '' @
     ''The tunnel credentials file was originally created by '' @
     [CHR 0x60] @ ''cloudflared tunnel create'' @ [CHR 0x60] @ ''. '' @
     ''You may have accidentally used the filepath to cert.pem, which is generated by '' @
     [CHR 0x60] @ ''cloudflared tunnel '' @ ''login'' @ [CHR 0x60] @ ''.''"

definition readTunnelCredentials :: "cred_env \<Rightarrow> CredFinder \<Rightarrow> Credentials \<times> go_error option" where
  "readTunnelCredentials env credFinder =
     (case finder_Path env credFinder of
        Inl err \<Rightarrow> (zero_Credentials, Some err)
      | Inr filePath \<Rightarrow>
          (case readFile env filePath of
             Inl err \<Rightarrow>
               (zero_Credentials,
                Some (wrapf (''couldn't read tunnel credentials from '' @ filePath) err))
           | Inr body \<Rightarrow>
               (case json_Unmarshal env body zero_Credentials of
                  (credentials, Some err) \<Rightarrow>
                    if HasSuffix filePath ''.pem''
                    then (zero_Credentials,
                          Some (errorf pem_msg))
                    else (zero_Credentials, Some (errInvalidJSONCredential filePath err))
                | (credentials, None) \<Rightarrow> (credentials, None))))"

definition findCredentials :: "cred_env \<Rightarrow> uuid \<Rightarrow> Credentials \<times> go_error option" where
  "findCredentials env tunnelID =
     (let (credentials, err) =
            (if CredContentsFlag env \<noteq> [] then
               (case json_Unmarshal env (CredContentsFlag env) zero_Credentials of
                  (c, Some e) \<Rightarrow> (c, Some (errInvalidJSONCredential ''TUNNEL_CRED_CONTENTS'' e))
                | (c, None) \<Rightarrow> (c, None))
             else readTunnelCredentials env (credentialFinder (CredFileFlag env) tunnelID))
      in (credentials\<lparr>TunnelID := tunnelID\<rparr>, err))"

text \<open>\<^verbatim>\<open>strings.Join\<close>.\<close>

fun Join :: "string list \<Rightarrow> string \<Rightarrow> string" where
  "Join [] sep = []"
| "Join [x] sep = x"
| "Join (x # y # ys) sep = x @ sep @ Join (y # ys) sep"

definition neither_msg :: string where
  "neither_msg =
     ''Please specify either the ID or name of a tunnel. The following inputs were neither: ''"

text \<open>
  The loop of \<^verbatim>\<open>convertNamesToUuids\<close>: \<open>i\<close> is the index of the next input,
  \<open>tunnelIDs\<close> the slice being filled, \<open>badInputs\<close> the inputs rejected so far.
  \<open>Parse\<close> stands for \<^verbatim>\<open>uuid.Parse\<close> of the UUID library (\<open>None\<close> when it returns an
  error).
\<close>

fun convert_loop ::
  "(string \<Rightarrow> uuid option) \<Rightarrow> (string \<rightharpoonup> uuid) \<Rightarrow> nat \<Rightarrow> string list \<Rightarrow>
   uuid list \<times> string list \<Rightarrow> uuid list \<times> string list" where
  "convert_loop Parse nameToID i [] acc = acc"
| "convert_loop Parse nameToID i (input # rest) (tunnelIDs, badInputs) =
     (case Parse input of
        Some u \<Rightarrow> convert_loop Parse nameToID (i + 1) rest (tunnelIDs[i := u], badInputs)
      | None \<Rightarrow>
          (case nameToID input of
             Some u \<Rightarrow> convert_loop Parse nameToID (i + 1) rest (tunnelIDs[i := u], badInputs)
           | None \<Rightarrow> convert_loop Parse nameToID (i + 1) rest (tunnelIDs, badInputs @ [input])))"

definition convertNamesToUuids ::
  "(string \<Rightarrow> uuid option) \<Rightarrow> string list \<Rightarrow> (string \<rightharpoonup> uuid) \<Rightarrow> go_error + uuid list" where
  "convertNamesToUuids Parse inputs nameToID =
     (case convert_loop Parse nameToID 0 inputs (replicate (length inputs) uuid_Nil, []) of
        (tunnelIDs, badInputs) \<Rightarrow>
          if length badInputs > 0 then Inl (errorf (neither_msg @ Join badInputs '', ''))
          else Inr tunnelIDs)"

record Tunnel =
  tunnel_ID :: uuid
  tunnel_Name :: string

fun nameToID_of :: "Tunnel list \<Rightarrow> (string \<rightharpoonup> uuid) \<Rightarrow> (string \<rightharpoonup> uuid)" where
  "nameToID_of [] m = m"
| "nameToID_of (t # ts) m = nameToID_of ts (m(tunnel_Name t \<mapsto> tunnel_ID t))"

definition findIDs :: "(string \<Rightarrow> uuid option) \<Rightarrow> Tunnel list \<Rightarrow> string list \<Rightarrow> go_error + uuid list" where
  "findIDs Parse tunnels inputs = convertNamesToUuids Parse inputs (nameToID_of tunnels Map.empty)"

text \<open>What an input must be for \<^verbatim>\<open>convertNamesToUuids\<close> to resolve it, and what it resolves to.\<close>

definition resolvable :: "(string \<Rightarrow> uuid option) \<Rightarrow> (string \<rightharpoonup> uuid) \<Rightarrow> string \<Rightarrow> bool" where
  "resolvable Parse nameToID input \<longleftrightarrow> Parse input \<noteq> None \<or> input \<in> dom nameToID"

definition resolve :: "(string \<Rightarrow> uuid option) \<Rightarrow> (string \<rightharpoonup> uuid) \<Rightarrow> string \<Rightarrow> uuid option" where
  "resolve Parse nameToID input =
     (case Parse input of Some u \<Rightarrow> Some u | None \<Rightarrow> nameToID input)"

section \<open>Sample values\<close>

text \<open>An observer that has counted nothing yet, and a reply, a state and a configuration to
  run the registration functions on.\<close>

definition fresh_Observer :: Observer where
  "fresh_Observer =
     \<lparr>regFail = (\<lambda>_. 0), regSuccess = (\<lambda>_. 0), userHostnamesCounts = (\<lambda>_. 0),
      tunnelsHA = Map.empty, events = []\<rparr>"

definition test_registration :: TunnelRegistration where
  "test_registration =
     \<lparr>DeserializeError = None, Url = ''https://t.example'', LogLines = [],
      reg_TunnelID = ''t1'', reg_EventDigest = [2], reg_ConnDigest = [3]\<rparr>"

definition test_reg_state :: reg_state where
  "test_reg_state =
     \<lparr>observer = fresh_Observer,
      credentialManager = \<lparr>reconnectToken = Inr [9], eventDigests = [0 \<mapsto> [1]],
                            connDigests = [0 \<mapsto> [1]]\<rparr>\<rparr>"

definition test_classic :: ClassicTunnelConfig where
  "test_classic = \<lparr>Hostname = ''h.example'', OriginCert = [], UseReconnectToken = True\<rparr>"

definition dup_error :: TunnelRegistrationError where
  "dup_error = \<lparr>err_text = ''EDUPCONN'', err_permanent = False\<rparr>"

text \<open>The \<^verbatim>\<open>reason\<close> label of the failure counter for an RPC error with the given text.\<close>

definition failure_reason :: "string \<Rightarrow> string \<Rightarrow> string" where
  "failure_reason dup text = (if text = dup then ''dup_edge_conn'' else ''server_error'')"

text \<open>The value of a string of decimal digits.\<close>

definition decimal :: "string \<Rightarrow> nat" where
  "decimal ds = foldl (\<lambda>n c. 10 * n + digit_val c) 0 ds"

text \<open>
  The file holds two integers, written \<open>a\<close> and \<open>b\<close>: two runs of digits, with no digit
  before, between or after them.
\<close>

definition two_integers :: "string \<Rightarrow> string \<Rightarrow> string \<Rightarrow> bool" where
  "two_integers file a b \<longleftrightarrow>
     (\<exists>pre sep post.
        file = pre @ a @ sep @ b @ post \<and>
        (\<forall>c\<in>set pre. \<not> is_digit c) \<and>
        a \<noteq> [] \<and> (\<forall>c\<in>set a. is_digit c) \<and>
        sep \<noteq> [] \<and> (\<forall>c\<in>set sep. \<not> is_digit c) \<and>
        b \<noteq> [] \<and> (\<forall>c\<in>set b. is_digit c) \<and>
        (\<forall>c\<in>set post. \<not> is_digit c))"



text \<open>
  A run of the listener on datagrams that are numbers: 0 does not parse, 3 is no echo
  reply; the third reply cannot be forwarded; then the socket is closed.
\<close>

definition test_parseReply :: "nat \<Rightarrow> go_error + nat" where
  "test_parseReply d = (if d = 0 then Inl (opaque ''malformed'') else Inr d)"

definition test_isEchoReply :: "nat \<Rightarrow> bool" where
  "test_isEchoReply r \<longleftrightarrow> r \<noteq> 3"

definition test_turns :: "nat turn list" where
  "test_turns =
     [\<lparr>ReadFrom = Inr 0, returnToSrc = None\<rparr>,
      \<lparr>ReadFrom = Inr 3, returnToSrc = None\<rparr>,
      \<lparr>ReadFrom = Inr 5, returnToSrc = Some (opaque ''muxer closed'')\<rparr>,
      \<lparr>ReadFrom = Inr 5, returnToSrc = None\<rparr>]"

definition closed_turn :: "nat turn" where
  "closed_turn = \<lparr>ReadFrom = Inl (opaque ''use of closed network connection''), returnToSrc = None\<rparr>"

text \<open>
  Credentials given in the option \<^verbatim>\<open>TUNNEL_CRED_CONTENTS\<close> that carry a tunnel ID of their
  own and do not decode fully.
\<close>

definition stale_Credentials :: Credentials where
  "stale_Credentials = \<lparr>AccountTag = ''acct'', TunnelSecret = [1, 2], TunnelID = 7, TunnelName = ''old''\<rparr>"

definition contents_env :: cred_env where
  "contents_env =
     \<lparr>CredContentsFlag = ''{}'', CredFileFlag = [],
      finder_Path = (\<lambda>_. Inl (opaque ''not found'')),
      readFile = (\<lambda>_. Inl (opaque ''no file'')),
      json_Unmarshal = (\<lambda>_ _. (stale_Credentials, Some (opaque ''bad json'')))\<rparr>"

text \<open>A parser that knows one UUID, and a table of two names, one of them that UUID's text.\<close>

definition test_Parse :: "string \<Rightarrow> uuid option" where
  "test_Parse s = (if s = ''00000000-0000-0000-0000-000000000001'' then Some 1 else None)"

definition test_names :: "string \<rightharpoonup> uuid" where
  "test_names = [''web'' \<mapsto> 2, ''00000000-0000-0000-0000-000000000001'' \<mapsto> 3]"

section \<open>Properties of the flow-control core\<close>

lemmas test_defs = test_stream_def testWindowSize_def testMaxWindowSize_def

text \<open>
  The model passes \<^verbatim>\<open>TestFlowControlSingleStream\<close>: every assertion of the test, in its
  order, for any frame cap.
\<close>

lemma TestFlowControlSingleStream:
  fixes c :: nat
  defines "s1 \<equiv> snd (consumeReceiveWindow (testWindowSize div 2) test_stream)"
  defines "s2 \<equiv> snd (getChunk c s1)"
  defines "s3 \<equiv> snd (consumeReceiveWindow 2 s2)"
  defines "s4 \<equiv> snd (getChunk c s3)"
  defines "s5 \<equiv> snd (consumeReceiveWindow (testWindowSize + 10) s4)"
  defines "s6 \<equiv> snd (getChunk c s5)"
  defines "s7 \<equiv> snd (consumeReceiveWindow (testMaxWindowSize + 1) s6)"
  shows "fst (consumeReceiveWindow (testWindowSize div 2) test_stream)"
    and "receiveWindow s1 = testWindowSize - testWindowSize div 2"
    and "receiveWindowCurrentMax s1 = testWindowSize"
    and "windowUpdate s1 = 0"
    and "chunk_windowUpdate (fst (getChunk c s1)) = windowUpdate s1"
    and "receiveWindow s2 = testWindowSize - testWindowSize div 2"
    and "windowUpdate s2 = 0" and "sendWindow s2 = testWindowSize"
    and "fst (consumeReceiveWindow 2 s2)"
    and "receiveWindow s3 = testWindowSize - (testWindowSize div 2 + 2)"
    and "receiveWindowCurrentMax s3 = testWindowSize * 2"
    and "windowUpdate s3 = testWindowSize * 2 - receiveWindow s3"
    and "chunk_windowUpdate (fst (getChunk c s3)) = windowUpdate s3"
    and "receiveWindow s4 = testWindowSize * 2"
    and "windowUpdate s4 = 0" and "sendWindow s4 = testWindowSize"
    and "fst (consumeReceiveWindow (testWindowSize + 10) s4)"
    and "receiveWindow s5 = testWindowSize * 2 - (testWindowSize + 10)"
    and "receiveWindowCurrentMax s5 = testWindowSize * 4"
    and "windowUpdate s5 = testWindowSize * 4 - receiveWindow s5"
    and "chunk_windowUpdate (fst (getChunk c s5)) = windowUpdate s5"
    and "receiveWindow s6 = testWindowSize * 4"
    and "windowUpdate s6 = 0" and "sendWindow s6 = testWindowSize"
    and "\<not> fst (consumeReceiveWindow (testMaxWindowSize + 1) s6)"
    and "receiveWindow s7 = testWindowSize * 4"
    and "receiveWindowCurrentMax s7 = testMaxWindowSize"
  unfolding s7_def s6_def s5_def s4_def s3_def s2_def s1_def
  by (simp_all add: consumeReceiveWindow_def getChunk_def test_defs)

text \<open>
  \<^bold>\<open>C1\<close>. On the test's stream (\<open>receiveWindow = receiveWindowCurrentMax = 65535\<close>,
  \<open>receiveWindowMax = 262140\<close>), \<^verbatim>\<open>consumeReceiveWindow(32768)\<close> returns true and leaves
  \<open>receiveWindow = 32767\<close>, \<open>receiveWindowCurrentMax = 131070\<close> and
  \<open>windowUpdate = 98303\<close>; the next \<^verbatim>\<open>getChunk()\<close>, for any frame cap, leaves
  \<open>receiveWindow = 131070\<close>, \<open>windowUpdate = 0\<close> and \<open>sendWindow = 65535\<close>.
\<close>

theorem S1_window_doubling:
  "fst (consumeReceiveWindow 32768 test_stream) = True \<and>
   receiveWindow (snd (consumeReceiveWindow 32768 test_stream)) = 32767 \<and>
   receiveWindowCurrentMax (snd (consumeReceiveWindow 32768 test_stream)) = 131070 \<and>
   windowUpdate (snd (consumeReceiveWindow 32768 test_stream)) = 98303 \<and>
   receiveWindow (snd (getChunk frameCap (snd (consumeReceiveWindow 32768 test_stream)))) = 131070 \<and>
   windowUpdate (snd (getChunk frameCap (snd (consumeReceiveWindow 32768 test_stream)))) = 0 \<and>
   sendWindow (snd (getChunk frameCap (snd (consumeReceiveWindow 32768 test_stream)))) = 65535"
  by (simp add: consumeReceiveWindow_def getChunk_def test_defs)

text \<open>
  The same on every stream with these three window values, whatever its other fields; the
  send window keeps its value when the stream has nothing to send.
\<close>

lemma S1_on_any_stream:
  assumes "receiveWindow s = 65535" and "receiveWindowCurrentMax s = 65535"
    and "receiveWindowMax s = 262140"
  shows "fst (consumeReceiveWindow 32768 s) = True"
    and "receiveWindow (snd (consumeReceiveWindow 32768 s)) = 32767"
    and "receiveWindowCurrentMax (snd (consumeReceiveWindow 32768 s)) = 131070"
    and "windowUpdate (snd (consumeReceiveWindow 32768 s)) = 98303"
    and "receiveWindow (snd (getChunk frameCap (snd (consumeReceiveWindow 32768 s)))) = 131070"
    and "windowUpdate (snd (getChunk frameCap (snd (consumeReceiveWindow 32768 s)))) = 0"
    and "writeBuffer s = [] \<Longrightarrow>
         sendWindow (snd (getChunk frameCap (snd (consumeReceiveWindow 32768 s)))) = sendWindow s"
  using assms by (simp_all add: consumeReceiveWindow_def getChunk_def Let_def)

text \<open>
  \<^bold>\<open>C2\<close>. For every stream state and every byte count \<open>R\<close>, \<^verbatim>\<open>consumeReceiveWindow(R)\<close>
  returns false if and only if every current maximum that takes in \<open>R\<close> bytes exceeds
  \<open>receiveWindowMax\<close>; and when it returns false the state, with \<open>receiveWindow\<close>,
  \<open>receiveWindowCurrentMax\<close> and \<open>windowUpdate\<close>, is unchanged.
\<close>

theorem consumeReceiveWindow_false_iff:
  "(fst (consumeReceiveWindow R s) = False \<longleftrightarrow> (\<forall>cm. R \<le> cm \<longrightarrow> receiveWindowMax s < cm)) \<and>
   (fst (consumeReceiveWindow R s) = False \<longrightarrow>
      snd (consumeReceiveWindow R s) = s \<and>
      receiveWindow (snd (consumeReceiveWindow R s)) = receiveWindow s \<and>
      receiveWindowCurrentMax (snd (consumeReceiveWindow R s)) = receiveWindowCurrentMax s \<and>
      windowUpdate (snd (consumeReceiveWindow R s)) = windowUpdate s)"
proof -
  have a: "(\<forall>cm. R \<le> cm \<longrightarrow> receiveWindowMax s < cm) \<longleftrightarrow> receiveWindowMax s < R"
    by (meson le_refl less_le_trans)
  show ?thesis
    unfolding a by (simp add: consumeReceiveWindow_def Let_def)
qed

text \<open>
  The boundary of section 8 on the test's stream: \<open>receiveWindowMax + 1\<close> bytes are
  refused without side effects, \<open>receiveWindowMax\<close> bytes are taken.
\<close>

theorem consumeReceiveWindow_false_iff_witness:
  "fst (consumeReceiveWindow 262141 test_stream) = False \<and>
   snd (consumeReceiveWindow 262141 test_stream) = test_stream \<and>
   fst (consumeReceiveWindow 262140 test_stream) = True"
proof -
  have m: "receiveWindowMax test_stream = 262140" by (simp add: test_defs)
  have h1: "\<forall>cm::nat. 262141 \<le> cm \<longrightarrow> receiveWindowMax test_stream < cm"
    unfolding m by simp
  have h2: "\<not> (\<forall>cm::nat. 262140 \<le> cm \<longrightarrow> receiveWindowMax test_stream < cm)"
    unfolding m by (simp add: exI[of _ 262140])
  from consumeReceiveWindow_false_iff [of 262141 test_stream] h1
  have "fst (consumeReceiveWindow 262141 test_stream) = False \<and>
        snd (consumeReceiveWindow 262141 test_stream) = test_stream" by blast
  moreover from consumeReceiveWindow_false_iff [of 262140 test_stream] h2
  have "fst (consumeReceiveWindow 262140 test_stream) = True" by blast
  ultimately show ?thesis by simp
qed

subsection \<open>Runs of consumptions\<close>

lemma consume_true_inv:
  assumes "window_inv s" "consumeReceiveWindow R s = (True, s')"
  shows "window_inv s'" "receiveWindowMax s' = receiveWindowMax s"
  using assms
  by (auto simp: consumeReceiveWindow_def window_inv_def Let_def split: if_splits)

lemma consume_true_staged:
  assumes "window_inv s"
    and "windowUpdate s = 0 \<or> 2 * receiveWindow s < receiveWindowCurrentMax s"
    and "consumeReceiveWindow R s = (True, s')"
  shows "credit_staged s'"
  using assms
  by (auto simp: consumeReceiveWindow_def window_inv_def credit_staged_def Let_def
      split: if_splits)

lemma credit_staged_pending:
  "credit_staged s \<Longrightarrow> windowUpdate s = 0 \<or> 2 * receiveWindow s < receiveWindowCurrentMax s"
  by (auto simp: credit_staged_def split: if_splits)

lemma consumeAll_inv:
  assumes "consumeAll Rs s = Some s'" and "window_inv s"
    and "windowUpdate s = 0 \<or> 2 * receiveWindow s < receiveWindowCurrentMax s"
    and "Rs \<noteq> []"
  shows "window_inv s' \<and> credit_staged s'"
  using assms
proof (induction Rs arbitrary: s)
  case Nil
  then show ?case by simp
next
  case (Cons r rs)
  from Cons.prems(1) obtain s1 where s1: "consumeReceiveWindow r s = (True, s1)"
    and rest: "consumeAll rs s1 = Some s'"
    by (auto split: prod.splits bool.splits)
  have i1: "window_inv s1" using consume_true_inv(1)[OF Cons.prems(2) s1] .
  have c1: "credit_staged s1" using consume_true_staged[OF Cons.prems(2,3) s1] .
  show ?case
  proof (cases "rs = []")
    case True
    with rest i1 c1 show ?thesis by simp
  next
    case False
    from Cons.IH[OF rest i1 credit_staged_pending[OF c1] False] show ?thesis .
  qed
qed

lemma consumeAll_append:
  "consumeAll (xs @ ys) s = Some s' \<Longrightarrow> \<exists>sp. consumeAll xs s = Some sp \<and> consumeAll ys sp = Some s'"
  by (induction xs arbitrary: s) (auto split: prod.splits bool.splits)

lemma getChunk_window:
  "windowUpdate (snd (getChunk c s)) = 0"
  "receiveWindow (snd (getChunk c s)) = receiveWindow s + windowUpdate s"
  "chunk_windowUpdate (fst (getChunk c s)) = windowUpdate s"
  "receiveWindowCurrentMax (snd (getChunk c s)) = receiveWindowCurrentMax s"
  "receiveWindowMax (snd (getChunk c s)) = receiveWindowMax s"
  by (simp_all add: getChunk_def Let_def)

text \<open>
  \<^bold>\<open>C3\<close>, as amended. Start from a stream that satisfies the invariant of section 3 and has
  no window update pending, and take any run of \<^verbatim>\<open>consumeReceiveWindow\<close> calls that all
  return true, with the byte counts summing to at most \<open>receiveWindowMax\<close>. After each call
  (each non-empty prefix \<open>ps\<close> of the run) \<open>0 \<le> receiveWindow \<le> receiveWindowCurrentMax
  \<le> receiveWindowMax\<close> holds, and the next \<^verbatim>\<open>getChunk()\<close> emits the pending
  \<open>windowUpdate\<close> as the chunk's credit, resets \<open>windowUpdate\<close> to 0 and advances
  \<open>receiveWindow\<close> by the credit emitted. When the call left \<open>receiveWindow\<close> below half
  of \<open>receiveWindowCurrentMax\<close>, the credit is \<open>receiveWindowCurrentMax - receiveWindow\<close>
  and sets \<open>receiveWindow\<close> to exactly \<open>receiveWindowCurrentMax\<close>; otherwise the credit is
  0 and \<open>receiveWindow\<close> stays as it is.
\<close>

theorem consume_sequence_then_getChunk:
  assumes "window_inv s" and "windowUpdate s = 0"
    and "sum_list Rs \<le> receiveWindowMax s"
    and "consumeAll Rs s = Some s'"
    and "prefix ps Rs" and "ps \<noteq> []"
  shows "\<exists>sp. consumeAll ps s = Some sp \<and>
           receiveWindow sp \<le> receiveWindowCurrentMax sp \<and>
           receiveWindowCurrentMax sp \<le> receiveWindowMax sp \<and>
           chunk_windowUpdate (fst (getChunk frameCap sp)) = windowUpdate sp \<and>
           chunk_windowUpdate (fst (getChunk frameCap sp)) =
             (if 2 * receiveWindow sp < receiveWindowCurrentMax sp
              then receiveWindowCurrentMax sp - receiveWindow sp else 0) \<and>
           windowUpdate (snd (getChunk frameCap sp)) = 0 \<and>
           receiveWindow (snd (getChunk frameCap sp)) =
             receiveWindow sp + chunk_windowUpdate (fst (getChunk frameCap sp)) \<and>
           receiveWindow (snd (getChunk frameCap sp)) =
             (if 2 * receiveWindow sp < receiveWindowCurrentMax sp
              then receiveWindowCurrentMax sp else receiveWindow sp) \<and>
           receiveWindowCurrentMax (snd (getChunk frameCap sp)) = receiveWindowCurrentMax sp"
proof -
  from assms(5) obtain ys where "Rs = ps @ ys" by (auto simp: prefix_def)
  with assms(4) obtain sp where sp: "consumeAll ps s = Some sp"
    using consumeAll_append by blast
  from consumeAll_inv[OF sp assms(1) _ assms(6)] assms(2)
  have i: "window_inv sp" and c: "credit_staged sp" by simp_all
  from c i have w: "windowUpdate sp =
           (if 2 * receiveWindow sp < receiveWindowCurrentMax sp
            then receiveWindowCurrentMax sp - receiveWindow sp else 0)"
    by (auto simp add: credit_staged_def window_inv_def split: if_splits)
  from i have le: "receiveWindow sp \<le> receiveWindowCurrentMax sp"
    and le': "receiveWindowCurrentMax sp \<le> receiveWindowMax sp"
    by (simp_all add: window_inv_def)
  from w le have r: "receiveWindow sp + windowUpdate sp =
           (if 2 * receiveWindow sp < receiveWindowCurrentMax sp
            then receiveWindowCurrentMax sp else receiveWindow sp)"
    by (simp split: if_splits)
  have "consumeAll ps s = Some sp \<and>
           receiveWindow sp \<le> receiveWindowCurrentMax sp \<and>
           receiveWindowCurrentMax sp \<le> receiveWindowMax sp \<and>
           chunk_windowUpdate (fst (getChunk frameCap sp)) = windowUpdate sp \<and>
           chunk_windowUpdate (fst (getChunk frameCap sp)) =
             (if 2 * receiveWindow sp < receiveWindowCurrentMax sp
              then receiveWindowCurrentMax sp - receiveWindow sp else 0) \<and>
           windowUpdate (snd (getChunk frameCap sp)) = 0 \<and>
           receiveWindow (snd (getChunk frameCap sp)) =
             receiveWindow sp + chunk_windowUpdate (fst (getChunk frameCap sp)) \<and>
           receiveWindow (snd (getChunk frameCap sp)) =
             (if 2 * receiveWindow sp < receiveWindowCurrentMax sp
              then receiveWindowCurrentMax sp else receiveWindow sp) \<and>
           receiveWindowCurrentMax (snd (getChunk frameCap sp)) = receiveWindowCurrentMax sp"
    unfolding getChunk_window using sp le le' w r by (intro conjI) simp_all
  then show ?thesis by (rule exI)
qed

text \<open>
  The first two consumptions of the test, without a chunk in between, as a prefix of a run
  of three.
\<close>

theorem consume_sequence_then_getChunk_witness:
  "window_inv test_stream \<and> windowUpdate test_stream = 0 \<and>
   sum_list [32767, 2, 10] \<le> receiveWindowMax test_stream \<and>
   consumeAll [32767, 2, 10] test_stream \<noteq> None \<and>
   prefix [32767, 2] [32767, 2, 10::nat] \<and>
   consumeAll [32767, 2] test_stream =
     Some (test_stream\<lparr>receiveWindow := 32766, receiveWindowCurrentMax := 131070,
                       windowUpdate := 98304\<rparr>) \<and>
   chunk_windowUpdate (fst (getChunk 16384
     (test_stream\<lparr>receiveWindow := 32766, receiveWindowCurrentMax := 131070,
                  windowUpdate := 98304\<rparr>))) = 98304 \<and>
   receiveWindow (snd (getChunk 16384
     (test_stream\<lparr>receiveWindow := 32766, receiveWindowCurrentMax := 131070,
                  windowUpdate := 98304\<rparr>))) = 131070"
proof -
  let ?sp = "test_stream\<lparr>receiveWindow := 32766, receiveWindowCurrentMax := 131070,
                         windowUpdate := 98304\<rparr>"
  let ?s' = "test_stream\<lparr>receiveWindow := 32756, receiveWindowCurrentMax := 262140,
                         windowUpdate := 229384\<rparr>"
  have h1: "window_inv test_stream" by (simp add: window_inv_def test_defs)
  have h2: "windowUpdate test_stream = 0" by (simp add: test_defs)
  have h3: "sum_list [32767, 2, 10] \<le> receiveWindowMax test_stream" by (simp add: test_defs)
  have h4: "consumeAll [32767, 2, 10] test_stream = Some ?s'"
    by (simp add: consumeReceiveWindow_def test_defs)
  have h5: "prefix [32767, 2] [32767, 2, 10::nat]" by simp
  have h6: "[32767, 2::nat] \<noteq> []" by simp
  have sp: "consumeAll [32767, 2] test_stream = Some ?sp"
    by (simp add: consumeReceiveWindow_def test_defs)
  from consume_sequence_then_getChunk[OF h1 h2 h3 h4 h5 h6, of 16384] sp
  have "chunk_windowUpdate (fst (getChunk 16384 ?sp)) = 98304 \<and>
        receiveWindow (snd (getChunk 16384 ?sp)) = 131070" by (simp add: test_defs)
  with h1 h2 h3 h4 h5 sp show ?thesis by simp
qed

text \<open>
  \<^bold>\<open>C3\<close> as stated fails at the first step of the test: after \<^verbatim>\<open>consumeReceiveWindow(32767)\<close>
  the window is 32768, not below half of 65535, no credit is staged, and \<^verbatim>\<open>getChunk()\<close>
  emits the credit 0 and leaves \<open>receiveWindow\<close> at 32768 while
  \<open>receiveWindowCurrentMax\<close> is 65535, as the test asserts.
\<close>

theorem getChunk_restores_counterexample:
  "window_inv test_stream \<and>
   sum_list [32767] \<le> receiveWindowMax test_stream \<and>
   consumeAll [32767] test_stream = Some (test_stream\<lparr>receiveWindow := 32768\<rparr>) \<and>
   receiveWindowCurrentMax (test_stream\<lparr>receiveWindow := 32768\<rparr>) = 65535 \<and>
   chunk_windowUpdate (fst (getChunk 16384 (test_stream\<lparr>receiveWindow := 32768\<rparr>))) = 0 \<and>
   receiveWindow (snd (getChunk 16384 (test_stream\<lparr>receiveWindow := 32768\<rparr>))) = 32768 \<and>
   receiveWindow (snd (getChunk 16384 (test_stream\<lparr>receiveWindow := 32768\<rparr>))) \<noteq>
     receiveWindowCurrentMax (test_stream\<lparr>receiveWindow := 32768\<rparr>)"
  by (simp add: consumeReceiveWindow_def getChunk_def window_inv_def test_defs)

section \<open>Properties of Close, Read and Write\<close>

text \<open>
  \<^bold>\<open>C4\<close>. Once \<^verbatim>\<open>Close()\<close> has been called on a muxed stream, a \<^verbatim>\<open>Read\<close> that finds
  the read buffer drained returns no bytes and end-of-stream, and a \<^verbatim>\<open>Write\<close> after it
  returns \<open>(0, EndOfStream)\<close>.
\<close>

theorem read_write_after_Close:
  assumes "buffered (readBuffer (MuxedStream_Close s)) = []"
  shows "MuxedStream_Read plen (MuxedStream_Close s) =
           Some (([], Some EndOfStream), MuxedStream_Close s) \<and>
         MuxedStream_Write p (MuxedStream_Close s) =
           ((0, Some EndOfStream), MuxedStream_Close s)"
  using assms by (simp add: MuxedStream_Read_def MuxedStream_Write_def MuxedStream_Close_def)

text \<open>The stream and the calls of \<^verbatim>\<open>TestMuxedStreamEOF\<close>, with \<^verbatim>\<open>Close\<close> run first.\<close>

theorem read_write_after_Close_witness:
  "buffered (readBuffer (MuxedStream_Close test_stream)) = [] \<and>
   MuxedStream_Read 1 (MuxedStream_Close test_stream) =
     Some (([], Some EndOfStream), MuxedStream_Close test_stream) \<and>
   MuxedStream_Write [1] (MuxedStream_Close test_stream) =
     ((0, Some EndOfStream), MuxedStream_Close test_stream)"
proof -
  have h: "buffered (readBuffer (MuxedStream_Close test_stream)) = []"
    by (simp add: MuxedStream_Close_def test_stream_def)
  from read_write_after_Close[OF h, of 1 "[1]"] h show ?thesis by simp
qed

lemma Close_idempotent: "MuxedStream_Close (MuxedStream_Close s) = MuxedStream_Close s"
  by (simp add: MuxedStream_Close_def)

lemma Read_suspends_then_EOF:
  assumes "buffered (readBuffer s) = []" "\<not> closed (readBuffer s)"
  shows "MuxedStream_Read plen s = None"
  using assms by (simp add: MuxedStream_Read_def)

section \<open>Properties of tunnel registration\<close>

lemma processRegistrationSuccess_digests:
  assumes "processRegistrationSuccess ltn i registration name ct st = (None, st')"
  shows "connDigests (credentialManager st') = (connDigests (credentialManager st))(i \<mapsto> reg_ConnDigest registration)"
    and "eventDigests (credentialManager st') = eventDigests (credentialManager st)"
    and "reconnectToken (credentialManager st') = reconnectToken (credentialManager st)"
  using assms
  by (auto simp: processRegistrationSuccess_def Let_def SetConnDigest_def split: option.splits if_splits)

text \<open>
  \<^bold>\<open>C5\<close>, as amended. After every successful \<^verbatim>\<open>registerTunnel\<close> on connection index
  \<open>i\<close> the credential manager's event digest and conn digest for \<open>i\<close> are the values the
  server returned. After every successful \<^verbatim>\<open>reconnectTunnel\<close> the conn digest for \<open>i\<close>
  is the value the server returned, and the event digest for \<open>i\<close> is still the one that
  was stored before and sent to the server.
\<close>

theorem digests_after_success:
  "(registerTunnel dup ltn i newRPCStream registration ct st = (None, st') \<longrightarrow>
      eventDigests (credentialManager st') i = Some (reg_EventDigest registration) \<and>
      connDigests (credentialManager st') i = Some (reg_ConnDigest registration)) \<and>
   (reconnectTunnel dup ltn i newRPCStream ReconnectTunnel ct st = (None, st') \<longrightarrow>
      (\<exists>token eventDigest connDigest.
         ReconnectToken (credentialManager st) = Inr token \<and>
         EventDigest (credentialManager st) i = Inr eventDigest \<and>
         ConnDigest (credentialManager st) i = Inr connDigest \<and>
         connDigests (credentialManager st') i =
           Some (reg_ConnDigest (ReconnectTunnel token eventDigest connDigest)) \<and>
         eventDigests (credentialManager st') i = Some eventDigest))"
proof (intro conjI impI)
  assume a: "registerTunnel dup ltn i newRPCStream registration ct st = (None, st')"
  then obtain st2 where p: "processRegistrationSuccess ltn i registration register ct st2 = (None, st')"
    and e: "eventDigests (credentialManager st2) i = Some (reg_EventDigest registration)"
    by (auto simp: registerTunnel_def Let_def SetEventDigest_def split: option.splits prod.splits)
  from processRegistrationSuccess_digests[OF p] e
  show "eventDigests (credentialManager st') i = Some (reg_EventDigest registration)"
    and "connDigests (credentialManager st') i = Some (reg_ConnDigest registration)"
    by simp_all
next
  assume a: "reconnectTunnel dup ltn i newRPCStream ReconnectTunnel ct st = (None, st')"
  then obtain token ed cd where t: "ReconnectToken (credentialManager st) = Inr token"
    and e: "EventDigest (credentialManager st) i = Inr ed"
    and c: "ConnDigest (credentialManager st) i = Inr cd"
    and p: "processRegistrationSuccess ltn i (ReconnectTunnel token ed cd) reconnect ct st = (None, st')"
    by (auto simp: reconnectTunnel_def Let_def split: option.splits prod.splits sum.splits)
  from e have "eventDigests (credentialManager st) i = Some ed"
    by (auto simp: EventDigest_def split: option.splits)
  with processRegistrationSuccess_digests[OF p] t e c
  show "\<exists>token eventDigest connDigest.
         ReconnectToken (credentialManager st) = Inr token \<and>
         EventDigest (credentialManager st) i = Inr eventDigest \<and>
         ConnDigest (credentialManager st) i = Inr connDigest \<and>
         connDigests (credentialManager st') i =
           Some (reg_ConnDigest (ReconnectTunnel token eventDigest connDigest)) \<and>
         eventDigests (credentialManager st') i = Some eventDigest"
    by simp
qed

lemma reconnect_test:
  "reconnectTunnel ''EDUPCONN'' (\<lambda>_. None) 0 None (\<lambda>_ _ _. test_registration) test_classic test_reg_state
   = (None, test_reg_state\<lparr>observer := fresh_Observer\<lparr>
        userHostnamesCounts := (\<lambda>_. 0)(''https://t.example'' := 1),
        regSuccess := (\<lambda>_. 0)(''reconnect'' := 1),
        tunnelsHA := [0 \<mapsto> ''t1'']\<rparr>,
      credentialManager := \<lparr>reconnectToken = Inr [9], eventDigests = [0 \<mapsto> [1]],
                           connDigests = [0 \<mapsto> [3]]\<rparr>\<rparr>)"
  by (simp add: reconnectTunnel_def test_reg_state_def test_registration_def test_classic_def
      fresh_Observer_def ReconnectToken_def EventDigest_def ConnDigest_def
      processRegistrationSuccess_def IsTrialZone_def Let_def SetConnDigest_def Inc_def)

text \<open>
  \<^bold>\<open>C5\<close> as stated fails for a reconnection: the store holds event digest \<open>[1]\<close> for
  connection 0, the server's reply carries event digest \<open>[2]\<close>, the reconnection succeeds,
  and the stored event digest is still \<open>[1]\<close>.
\<close>

theorem reconnect_event_digest_counterexample:
  "fst (reconnectTunnel ''EDUPCONN'' (\<lambda>_. None) 0 None (\<lambda>_ _ _. test_registration)
          test_classic test_reg_state) = None \<and>
   reg_EventDigest test_registration = [2] \<and>
   eventDigests (credentialManager (snd (reconnectTunnel ''EDUPCONN'' (\<lambda>_. None) 0 None
       (\<lambda>_ _ _. test_registration) test_classic test_reg_state))) 0 = Some [1] \<and>
   eventDigests (credentialManager (snd (reconnectTunnel ''EDUPCONN'' (\<lambda>_. None) 0 None
       (\<lambda>_ _ _. test_registration) test_classic test_reg_state))) 0 \<noteq>
     Some (reg_EventDigest test_registration)"
  unfolding reconnect_test by (simp add: test_reg_state_def test_registration_def)

text \<open>A successful registration and a successful reconnection on connection 0.\<close>

theorem digests_after_success_witness:
  "fst (registerTunnel ''EDUPCONN'' (\<lambda>_. None) 0 None test_registration test_classic
          test_reg_state) = None \<and>
   fst (reconnectTunnel ''EDUPCONN'' (\<lambda>_. None) 0 None (\<lambda>_ _ _. test_registration)
          test_classic test_reg_state) = None \<and>
   eventDigests (credentialManager (snd (registerTunnel ''EDUPCONN'' (\<lambda>_. None) 0 None
       test_registration test_classic test_reg_state))) 0 = Some [2] \<and>
   connDigests (credentialManager (snd (registerTunnel ''EDUPCONN'' (\<lambda>_. None) 0 None
       test_registration test_classic test_reg_state))) 0 = Some [3] \<and>
   connDigests (credentialManager (snd (reconnectTunnel ''EDUPCONN'' (\<lambda>_. None) 0 None
       (\<lambda>_ _ _. test_registration) test_classic test_reg_state))) 0 = Some [3]"
proof -
  let ?r = "registerTunnel ''EDUPCONN'' (\<lambda>_. None) 0 None test_registration test_classic test_reg_state"
  let ?c = "reconnectTunnel ''EDUPCONN'' (\<lambda>_. None) 0 None (\<lambda>_ _ _. test_registration) test_classic test_reg_state"
  have r: "?r = (None, snd ?r)"
    by (simp add: registerTunnel_def test_reg_state_def test_registration_def test_classic_def
      processRegistrationSuccess_def IsTrialZone_def Let_def)
  have c: "?c = (None, snd ?c)"
    unfolding reconnect_test by simp
  have e: "EventDigest (credentialManager test_reg_state) 0 = Inr [1]"
      "ConnDigest (credentialManager test_reg_state) 0 = Inr [1]"
      "ReconnectToken (credentialManager test_reg_state) = Inr [9]"
    by (simp_all add: EventDigest_def ConnDigest_def ReconnectToken_def test_reg_state_def)
  from digests_after_success[where dup="''EDUPCONN''" and ltn="\<lambda>_. None" and i=0 and newRPCStream=None
      and registration=test_registration and ct=test_classic and st=test_reg_state
      and st'="snd ?r"] r
  have a: "eventDigests (credentialManager (snd ?r)) 0 = Some [2] \<and>
        connDigests (credentialManager (snd ?r)) 0 = Some [3]"
    by (simp add: test_registration_def)
  from digests_after_success[where dup="''EDUPCONN''" and ltn="\<lambda>_. None" and i=0 and newRPCStream=None
      and ReconnectTunnel="\<lambda>_ _ _. test_registration" and ct=test_classic and st=test_reg_state
      and st'="snd ?c"] c
  have b: "connDigests (credentialManager (snd ?c)) 0 = Some [3]"
    by (auto simp add: test_registration_def)
  from r have r': "fst ?r = None" by (metis fst_conv)
  from c have c': "fst ?c = None" by (metis fst_conv)
  from r' c' a b show ?thesis by blast
qed

lemma registerConnection_failure:
  "registerConnection dup i (Inl err) ob =
     (Some (if err = dup then errDuplicationConnection else serverRegistrationErrorFromRPC err),
      ob\<lparr>regFail := (regFail ob)
           ((if err = dup then ''dup_edge_conn'' else ''server_error'', ''registerConnection'') :=
              regFail ob (if err = dup then ''dup_edge_conn'' else ''server_error'', ''registerConnection'') + 1)\<rparr>)"
  by (simp add: registerConnection_def Inc_def)

lemma processRegisterTunnelError_counts:
  "processRegisterTunnelError dup e name ob =
     (if err_text e = dup then errDuplicationConnection
      else serverRegisterTunnelError e (err_permanent e),
      ob\<lparr>regFail := (regFail ob)
           ((if err_text e = dup then ''dup_edge_conn'' else ''server_error'', rpcName_string name) :=
              regFail ob (if err_text e = dup then ''dup_edge_conn'' else ''server_error'',
                          rpcName_string name) + 1)\<rparr>)"
  by (simp add: processRegisterTunnelError_def Inc_def)

lemma registerTunnel_failure:
  assumes "DeserializeError registration = Some e"
  shows "registerTunnel dup ltn i None registration ct st =
     (Some (if err_text e = dup then errDuplicationConnection
            else serverRegisterTunnelError e (err_permanent e)),
      st\<lparr>observer := (observer st)\<lparr>events := events (observer st) @ [RegisteringEvent],
           regFail := (regFail (observer st))
           ((if err_text e = dup then ''dup_edge_conn'' else ''server_error'', ''register'') :=
              regFail (observer st) (if err_text e = dup then ''dup_edge_conn'' else ''server_error'',
                          ''register'') + 1)\<rparr>\<rparr>)"
  using assms by (simp add: registerTunnel_def processRegisterTunnelError_counts Let_def)

lemma reconnectTunnel_failure:
  assumes "ReconnectToken (credentialManager st) = Inr token"
    and "EventDigest (credentialManager st) i = Inr eventDigest"
    and "ConnDigest (credentialManager st) i = Inr connDigest"
    and "DeserializeError (ReconnectTunnel token eventDigest connDigest) = Some e"
  shows "reconnectTunnel dup ltn i None ReconnectTunnel ct st =
     (Some (if err_text e = dup then errDuplicationConnection
            else serverRegisterTunnelError e (err_permanent e)),
      st\<lparr>observer := (observer st)\<lparr>
           regFail := (regFail (observer st))
           ((if err_text e = dup then ''dup_edge_conn'' else ''server_error'', ''reconnect'') :=
              regFail (observer st) (if err_text e = dup then ''dup_edge_conn'' else ''server_error'',
                          ''reconnect'') + 1)\<rparr>\<rparr>)"
  using assms by (simp add: reconnectTunnel_def processRegisterTunnelError_counts Let_def)

text \<open>
  \<^bold>\<open>C6\<close>. When the RPC of \<^verbatim>\<open>registerConnection\<close>, \<^verbatim>\<open>registerTunnel\<close> or
  \<^verbatim>\<open>reconnectTunnel\<close> fails, the function returns an error, which is the
  duplicate-connection error value exactly when the RPC error's text is the
  duplicate-connection text; and the registration-failure counter is incremented once, at
  the reason \<^verbatim>\<open>dup_edge_conn\<close> in that case and at \<^verbatim>\<open>server_error\<close> otherwise (with the
  RPC's name as second label), every other label of the counter keeping its value.
\<close>

theorem registration_failure_counted_once:
  "(registerConnection dup i (Inl err) ob = (ra, oba) \<longrightarrow>
        (ra = Some errDuplicationConnection \<longleftrightarrow> err = dup) \<and> ra \<noteq> None \<and>
        regFail oba = (regFail ob)((failure_reason dup err, ''registerConnection'') :=
                         regFail ob (failure_reason dup err, ''registerConnection'') + 1)) \<and>
   (DeserializeError registration = Some eb \<and>
    registerTunnel dup ltn i None registration ct stb = (rb, stb') \<longrightarrow>
        (rb = Some errDuplicationConnection \<longleftrightarrow> err_text eb = dup) \<and> rb \<noteq> None \<and>
        regFail (observer stb') =
          (regFail (observer stb))((failure_reason dup (err_text eb), ''register'') :=
             regFail (observer stb) (failure_reason dup (err_text eb), ''register'') + 1)) \<and>
   (ReconnectToken (credentialManager stc) = Inr token \<and>
    EventDigest (credentialManager stc) i = Inr eventDigest \<and>
    ConnDigest (credentialManager stc) i = Inr connDigest \<and>
    DeserializeError (ReconnectTunnel token eventDigest connDigest) = Some ec \<and>
    reconnectTunnel dup ltn i None ReconnectTunnel ct stc = (rc, stc') \<longrightarrow>
        (rc = Some errDuplicationConnection \<longleftrightarrow> err_text ec = dup) \<and> rc \<noteq> None \<and>
        regFail (observer stc') =
          (regFail (observer stc))((failure_reason dup (err_text ec), ''reconnect'') :=
             regFail (observer stc) (failure_reason dup (err_text ec), ''reconnect'') + 1))"
proof (intro conjI impI; (elim conjE)?)
qed (auto simp: registerConnection_failure registerTunnel_failure reconnectTunnel_failure
      failure_reason_def split: if_splits)

text \<open>The three functions on a duplicate-connection error, from counters at zero.\<close>

theorem registration_failure_counted_once_witness:
  "fst (registerConnection ''EDUPCONN'' 0 (Inl ''EDUPCONN'') fresh_Observer) =
     Some errDuplicationConnection \<and>
   regFail (snd (registerConnection ''EDUPCONN'' 0 (Inl ''EDUPCONN'') fresh_Observer)) =
     (\<lambda>_. 0)((''dup_edge_conn'', ''registerConnection'') := 1) \<and>
   fst (registerTunnel ''EDUPCONN'' (\<lambda>_. None) 0 None
          (test_registration\<lparr>DeserializeError := Some dup_error\<rparr>) test_classic test_reg_state) =
     Some errDuplicationConnection \<and>
   regFail (observer (snd (registerTunnel ''EDUPCONN'' (\<lambda>_. None) 0 None
          (test_registration\<lparr>DeserializeError := Some dup_error\<rparr>) test_classic test_reg_state))) =
     (\<lambda>_. 0)((''dup_edge_conn'', ''register'') := 1) \<and>
   fst (reconnectTunnel ''EDUPCONN'' (\<lambda>_. None) 0 None
          (\<lambda>_ _ _. test_registration\<lparr>DeserializeError := Some dup_error\<rparr>) test_classic
          test_reg_state) = Some errDuplicationConnection \<and>
   regFail (observer (snd (reconnectTunnel ''EDUPCONN'' (\<lambda>_. None) 0 None
          (\<lambda>_ _ _. test_registration\<lparr>DeserializeError := Some dup_error\<rparr>) test_classic
          test_reg_state))) = (\<lambda>_. 0)((''dup_edge_conn'', ''reconnect'') := 1)"
proof -
  let ?reg = "test_registration\<lparr>DeserializeError := Some dup_error\<rparr>"
  let ?a = "registerConnection ''EDUPCONN'' 0 (Inl ''EDUPCONN'') fresh_Observer"
  let ?b = "registerTunnel ''EDUPCONN'' (\<lambda>_. None) 0 None ?reg test_classic test_reg_state"
  let ?c = "reconnectTunnel ''EDUPCONN'' (\<lambda>_. None) 0 None (\<lambda>_ _ _. ?reg) test_classic test_reg_state"
  note th = registration_failure_counted_once[where dup="''EDUPCONN''" and i=0
      and err="''EDUPCONN''" and ob=fresh_Observer and ra="fst ?a" and oba="snd ?a"
      and registration="?reg" and eb=dup_error and ltn="\<lambda>_. None" and ct=test_classic
      and stb=test_reg_state and rb="fst ?b" and stb'="snd ?b"
      and stc=test_reg_state and token="[9]" and eventDigest="[1]" and connDigest="[1]"
      and ReconnectTunnel="\<lambda>_ _ _. ?reg" and ec=dup_error and rc="fst ?c" and stc'="snd ?c"]
  have h: "DeserializeError ?reg = Some dup_error"
      "ReconnectToken (credentialManager test_reg_state) = Inr [9]"
      "EventDigest (credentialManager test_reg_state) 0 = Inr [1]"
      "ConnDigest (credentialManager test_reg_state) 0 = Inr [1]"
      "err_text dup_error = ''EDUPCONN''"
      "regFail fresh_Observer = (\<lambda>_. 0)"
      "regFail (observer test_reg_state) = (\<lambda>_. 0)"
    by (simp_all add: ReconnectToken_def EventDigest_def ConnDigest_def test_reg_state_def
        dup_error_def fresh_Observer_def)
  from th h show ?thesis by (simp add: failure_reason_def)
qed


section \<open>Properties of the ICMP proxy\<close>

subsection \<open>The response listener\<close>

lemma handleResponse_read_ok:
  "ReadFrom t = Inr d \<Longrightarrow> fst (handleResponse P E M t) = True"
  by (simp add: handleResponse_def split: sum.splits option.splits)

lemma handleResponse_read_fails:
  "ReadFrom t = Inl err \<Longrightarrow> handleResponse P E M t = (False, Some err)"
  by (simp add: handleResponse_def)

lemma listenResponse_skip:
  "ReadFrom t = Inr d \<Longrightarrow> listenResponse P E M (t # ts) = listenResponse P E M ts"
  using handleResponse_read_ok[of t d P E M]
  by (cases "handleResponse P E M t") simp

lemma listenResponse_stop:
  "ReadFrom t = Inl err \<Longrightarrow> listenResponse P E M (t # ts) = Some err"
  by (simp add: handleResponse_read_fails)

lemma listenResponse_skip_all:
  "\<forall>u\<in>set pre. \<exists>d. ReadFrom u = Inr d \<Longrightarrow>
   listenResponse P E M (pre @ ts) = listenResponse P E M ts"
proof (induction pre)
  case Nil
  then show ?case by simp
next
  case (Cons u pre)
  then obtain d where "ReadFrom u = Inr d" by auto
  with Cons show ?case by (simp add: listenResponse_skip del: listenResponse.simps)
qed

lemma listenResponse_Some:
  "listenResponse P E M turns = Some err \<Longrightarrow>
   \<exists>pre t post. turns = pre @ t # post \<and> (\<forall>u\<in>set pre. \<exists>d. ReadFrom u = Inr d) \<and>
                 ReadFrom t = Inl err"
proof (induction turns)
  case Nil
  then show ?case by simp
next
  case (Cons u us)
  show ?case
  proof (cases "ReadFrom u")
    case (Inl e)
    with Cons.prems have "e = err" by (simp add: listenResponse_stop del: listenResponse.simps)
    with Inl have "u # us = [] @ u # us \<and> (\<forall>x\<in>set []. \<exists>d. ReadFrom x = Inr d) \<and> ReadFrom u = Inl err"
      by simp
    then show ?thesis by (intro exI[of _ "[]"] exI[of _ u] exI[of _ us])
  next
    case (Inr d)
    with Cons.prems have "listenResponse P E M us = Some err"
      by (simp add: listenResponse_skip del: listenResponse.simps)
    from Cons.IH[OF this] obtain pre t post where
      "us = pre @ t # post" "\<forall>x\<in>set pre. \<exists>d. ReadFrom x = Inr d" "ReadFrom t = Inl err"
      by blast
    with Inr have "u # us = (u # pre) @ t # post \<and> (\<forall>x\<in>set (u # pre). \<exists>d. ReadFrom x = Inr d) \<and>
       ReadFrom t = Inl err" by simp
    then show ?thesis by (intro exI[of _ "u # pre"] exI[of _ t] exI[of _ post])
  qed
qed

text \<open>
  \<^bold>\<open>C7\<close>. The response-listener loop returns an error exactly when a read from the funnel's
  socket fails after reads that all succeeded, and the error is that of the failed read. A
  reply that does not parse, a message that is no echo reply and a failure to forward the
  reply to the client each give \<^verbatim>\<open>retryableErr = true\<close>, and the loop goes on with the
  next turn. When \<^verbatim>\<open>listenResponse\<close> returns, the goroutine that ran it ends and has run
  \<^verbatim>\<open>Unregister\<close> for the flow, which is then not registered under its funnel ID; as long
  as \<^verbatim>\<open>listenResponse\<close> has not returned, the goroutine has not ended and the tracker is
  as it was; so the goroutine ends only after a failed read.
\<close>

theorem listenResponse_exits_on_read_failure:
  "(listenResponse P E M turns = Some err \<longleftrightarrow>
      (\<exists>pre t post. turns = pre @ t # post \<and> (\<forall>u\<in>set pre. \<exists>d. ReadFrom u = Inr d) \<and>
                    ReadFrom t = Inl err)) \<and>
   (ReadFrom t = Inr d \<and> P d = Inl e \<longrightarrow>
      handleResponse P E M t = (True, Some e) \<and>
      listenResponse P E M (t # ts) = listenResponse P E M ts) \<and>
   (ReadFrom t = Inr d \<and> P d = Inr reply \<and> \<not> E reply \<longrightarrow>
      handleResponse P E M t = (True, Some (expect_echo_reply (M reply))) \<and>
      listenResponse P E M (t # ts) = listenResponse P E M ts) \<and>
   (ReadFrom t = Inr d \<and> P d = Inr reply \<and> E reply \<and> returnToSrc t = Some e \<longrightarrow>
      handleResponse P E M t = (True, Some e) \<and>
      listenResponse P E M (t # ts) = listenResponse P E M ts) \<and>
   (listenResponse P E M turns = Some err \<longrightarrow>
      listener_goroutine P E M funnelID icmpFlow turns tracker =
        (Unregister funnelID icmpFlow tracker, True) \<and>
      Unregister funnelID icmpFlow tracker funnelID \<noteq> Some icmpFlow) \<and>
   (listenResponse P E M turns = None \<longrightarrow>
      listener_goroutine P E M funnelID icmpFlow turns tracker = (tracker, False)) \<and>
   (listener_goroutine P E M funnelID icmpFlow turns tracker = (tracker', True) \<longrightarrow>
      listenResponse P E M turns \<noteq> None \<and> tracker' = Unregister funnelID icmpFlow tracker \<and>
      tracker' funnelID \<noteq> Some icmpFlow)"
proof -
  have 1: "listenResponse P E M turns = Some err \<longleftrightarrow>
      (\<exists>pre t post. turns = pre @ t # post \<and> (\<forall>u\<in>set pre. \<exists>d. ReadFrom u = Inr d) \<and>
                    ReadFrom t = Inl err)"
  proof
    assume "listenResponse P E M turns = Some err"
    then show "\<exists>pre t post. turns = pre @ t # post \<and> (\<forall>u\<in>set pre. \<exists>d. ReadFrom u = Inr d) \<and>
                    ReadFrom t = Inl err" by (rule listenResponse_Some)
  next
    assume "\<exists>pre t post. turns = pre @ t # post \<and> (\<forall>u\<in>set pre. \<exists>d. ReadFrom u = Inr d) \<and>
                    ReadFrom t = Inl err"
    then obtain pre t post where a: "turns = pre @ t # post"
      "\<forall>u\<in>set pre. \<exists>d. ReadFrom u = Inr d" "ReadFrom t = Inl err" by blast
    show "listenResponse P E M turns = Some err"
      unfolding a(1) listenResponse_skip_all[OF a(2)] using a(3) by (rule listenResponse_stop)
  qed
  have 2: "ReadFrom t = Inr d \<and> P d = Inl e \<longrightarrow>
      handleResponse P E M t = (True, Some e) \<and>
      listenResponse P E M (t # ts) = listenResponse P E M ts"
    by (simp add: handleResponse_def)
  have 3: "ReadFrom t = Inr d \<and> P d = Inr reply \<and> \<not> E reply \<longrightarrow>
      handleResponse P E M t = (True, Some (expect_echo_reply (M reply))) \<and>
      listenResponse P E M (t # ts) = listenResponse P E M ts"
    by (simp add: handleResponse_def)
  have 4: "ReadFrom t = Inr d \<and> P d = Inr reply \<and> E reply \<and> returnToSrc t = Some e \<longrightarrow>
      handleResponse P E M t = (True, Some e) \<and>
      listenResponse P E M (t # ts) = listenResponse P E M ts"
    by (simp add: handleResponse_def)
  have 5: "listener_goroutine P E M funnelID icmpFlow turns tracker = (tracker', True) \<longrightarrow>
      listenResponse P E M turns \<noteq> None \<and> tracker' = Unregister funnelID icmpFlow tracker \<and>
      tracker' funnelID \<noteq> Some icmpFlow"
    by (auto simp: listener_goroutine_def Unregister_def split: option.splits)
  have 6: "listenResponse P E M turns = Some err \<longrightarrow>
      listener_goroutine P E M funnelID icmpFlow turns tracker =
        (Unregister funnelID icmpFlow tracker, True) \<and>
      Unregister funnelID icmpFlow tracker funnelID \<noteq> Some icmpFlow"
    by (simp add: listener_goroutine_def Unregister_def)
  have 7: "listenResponse P E M turns = None \<longrightarrow>
      listener_goroutine P E M funnelID icmpFlow turns tracker = (tracker, False)"
    by (simp add: listener_goroutine_def)
  from 1 2 3 4 6 7 5 show ?thesis by (intro conjI)
qed

text \<open>Four retryable turns, then the closed socket.\<close>

theorem listenResponse_exits_on_read_failure_witness:
  "listenResponse test_parseReply test_isEchoReply (\<lambda>_. ''destination unreachable'')
     (test_turns @ closed_turn # test_turns) = Some (opaque ''use of closed network connection'') \<and>
   listenResponse test_parseReply test_isEchoReply (\<lambda>_. ''destination unreachable'') test_turns = None \<and>
   listener_goroutine test_parseReply test_isEchoReply (\<lambda>_. ''destination unreachable'')
     (1::nat) ''flow'' (test_turns @ closed_turn # test_turns) [1 \<mapsto> ''flow''] = (Map.empty, True)"
proof -
  let ?M = "\<lambda>_::nat. ''destination unreachable''"
  let ?L = "listenResponse test_parseReply test_isEchoReply ?M"
  let ?err = "opaque ''use of closed network connection''"
  have pre: "\<forall>u\<in>set test_turns. \<exists>d. ReadFrom u = Inr d"
    by (simp add: test_turns_def)
  have rd: "ReadFrom closed_turn = Inl ?err" by (simp add: closed_turn_def)
  from pre rd have "test_turns @ closed_turn # test_turns = test_turns @ closed_turn # test_turns \<and>
      (\<forall>u\<in>set test_turns. \<exists>d. ReadFrom u = Inr d) \<and> ReadFrom closed_turn = Inl ?err" by simp
  then have ex: "\<exists>pre t post. test_turns @ closed_turn # test_turns = pre @ t # post \<and>
      (\<forall>u\<in>set pre. \<exists>d. ReadFrom u = Inr d) \<and> ReadFrom t = Inl ?err"
    by (intro exI[of _ test_turns] exI[of _ closed_turn])
  note th = listenResponse_exits_on_read_failure[where P=test_parseReply and E=test_isEchoReply
      and M="?M" and turns="test_turns @ closed_turn # test_turns" and err="?err"
      and funnelID="1::nat" and icmpFlow="''flow''" and tracker="[1 \<mapsto> ''flow'']"]
  from th[THEN conjunct1] ex
  have a: "?L (test_turns @ closed_turn # test_turns) = Some ?err" by (rule iffD2)
  have b: "?L test_turns = None"
    by (simp add: test_turns_def handleResponse_def test_parseReply_def test_isEchoReply_def)
  from th[THEN conjunct2, THEN conjunct2, THEN conjunct2, THEN conjunct2, THEN conjunct1,
      THEN mp, OF a, THEN conjunct1]
  have c: "listener_goroutine test_parseReply test_isEchoReply ?M
     (1::nat) ''flow'' (test_turns @ closed_turn # test_turns) [1 \<mapsto> ''flow''] = (Map.empty, True)"
    by (simp add: Unregister_def)
  from a b c show ?thesis by (intro conjI)
qed

subsection \<open>Pre-flight\<close>

lemma digit_runs_digits:
  "\<forall>c\<in>set ds. is_digit c \<Longrightarrow> digit_runs cur (ds @ rest) = digit_runs (cur @ ds) rest"
  by (induction ds arbitrary: cur) simp_all

lemma digit_runs_no_digits:
  "\<forall>c\<in>set ns. \<not> is_digit c \<Longrightarrow> digit_runs [] (ns @ rest) = digit_runs [] rest"
  by (induction ns) simp_all

lemma digit_runs_end_run:
  assumes "cur \<noteq> []" "ns \<noteq> []" "\<forall>c\<in>set ns. \<not> is_digit c"
  shows "digit_runs cur (ns @ rest) = cur # digit_runs [] rest"
proof -
  from assms(2) obtain c cs where ns: "ns = c # cs" by (cases ns) auto
  with assms(3) have c: "\<not> is_digit c" and cs: "\<forall>c\<in>set cs. \<not> is_digit c" by auto
  show ?thesis using assms(1) c digit_runs_no_digits[OF cs, of rest] by (simp add: ns)
qed

lemma digit_runs_tail:
  assumes "cur \<noteq> []" "\<forall>c\<in>set ns. \<not> is_digit c"
  shows "digit_runs cur ns = [cur]"
proof (cases ns)
  case Nil
  with assms show ?thesis by simp
next
  case (Cons c cs)
  then have "ns \<noteq> []" by simp
  from digit_runs_end_run[OF assms(1) this assms(2), of "[]"] show ?thesis by simp
qed

lemma FindAll_two_integers:
  assumes "two_integers file a b"
  shows "FindAll file 2 = [a, b]"
proof -
  from assms obtain pre sep post where f: "file = pre @ a @ sep @ b @ post"
    and pre: "\<forall>c\<in>set pre. \<not> is_digit c"
    and a: "a \<noteq> []" "\<forall>c\<in>set a. is_digit c"
    and sep: "sep \<noteq> []" "\<forall>c\<in>set sep. \<not> is_digit c"
    and b: "b \<noteq> []" "\<forall>c\<in>set b. is_digit c"
    and post: "\<forall>c\<in>set post. \<not> is_digit c"
    unfolding two_integers_def by blast
  have "digit_runs [] file = digit_runs [] (a @ sep @ b @ post)"
    unfolding f by (rule digit_runs_no_digits[OF pre])
  also have "\<dots> = digit_runs a (sep @ b @ post)"
    using digit_runs_digits[OF a(2), of "[]"] by simp
  also have "\<dots> = a # digit_runs [] (b @ post)"
    by (rule digit_runs_end_run[OF a(1) sep])
  also have "digit_runs [] (b @ post) = digit_runs b post"
    using digit_runs_digits[OF b(2), of "[]"] by simp
  also have "\<dots> = [b]" by (rule digit_runs_tail[OF b(1) post])
  finally show ?thesis by (simp add: FindAll_def)
qed

lemma foldl_digits_mono:
  "n \<le> foldl (\<lambda>n c. 10 * n + digit_val c) n ds"
proof (induction ds arbitrary: n)
  case Nil
  then show ?case by simp
next
  case (Cons c cs)
  have "n \<le> 10 * n + digit_val c" by simp
  also have "\<dots> \<le> foldl (\<lambda>n c. 10 * n + digit_val c) (10 * n + digit_val c) cs" by (rule Cons.IH)
  finally show ?case by simp
qed

lemma parse_digits_value:
  assumes "\<forall>c\<in>set ds. is_digit c" "n \<le> 2 ^ 32 - 1"
  shows "parse_digits n ds =
     (if foldl (\<lambda>n c. 10 * n + digit_val c) n ds > 2 ^ 32 - 1 then Inl ErrRange
      else Inr (foldl (\<lambda>n c. 10 * n + digit_val c) n ds))"
  using assms
proof (induction ds arbitrary: n)
  case Nil
  then show ?case by simp
next
  case (Cons c cs)
  show ?case
  proof (cases "10 * n + digit_val c > 2 ^ 32 - 1")
    case True
    with foldl_digits_mono[of "10 * n + digit_val c" cs]
    have "foldl (\<lambda>n c. 10 * n + digit_val c) (10 * n + digit_val c) cs > 2 ^ 32 - 1"
      by linarith
    with True Cons.prems show ?thesis by simp
  next
    case False
    then have le: "10 * n + digit_val c \<le> 2 ^ 32 - 1" by simp
    from Cons.prems have cs: "\<forall>c\<in>set cs. is_digit c" and c: "is_digit c" by simp_all
    from Cons.IH[OF cs le] False c show ?thesis by simp
  qed
qed

lemma ParseInt32_digits:
  assumes "a \<noteq> []" "\<forall>c\<in>set a. is_digit c"
  shows "ParseInt32 a =
     (if decimal a < 2 ^ 31 then Inr (int (decimal a))
      else Inl (NumError ''ParseInt'' a ErrRange))"
proof -
  from assms have "is_digit (hd a)" by (cases a) auto
  then have h: "hd a \<noteq> CHR ''-''" "hd a \<noteq> CHR ''+''"
    by (auto simp: is_digit_def)
  have p: "parse_digits 0 a =
     (if decimal a > 2 ^ 32 - 1 then Inl ErrRange else Inr (decimal a))"
    unfolding decimal_def by (rule parse_digits_value[OF assms(2)]) simp
  show ?thesis
    using assms(1) h by (simp add: ParseInt32_def p)
qed


text \<open>An integer of \<open>2^31\<close> or more in the file is an error, whatever the group ID.\<close>

lemma checkInPingGroup_out_of_range:
  assumes "two_integers file a b" "2 ^ 31 \<le> decimal a \<or> 2 ^ 31 \<le> decimal b"
  shows "checkInPingGroup (Inr file) gid \<noteq> None"
proof -
  from assms(1) have da: "a \<noteq> []" "\<forall>c\<in>set a. is_digit c" and db: "b \<noteq> []" "\<forall>c\<in>set b. is_digit c"
    unfolding two_integers_def by blast+
  show ?thesis
    using assms(2)
    by (auto simp: checkInPingGroup_def Let_def FindAll_two_integers[OF assms(1)]
          ParseInt32_digits[OF da] ParseInt32_digits[OF db])
qed





section \<open>Properties of the tunnel subcommands\<close>

text \<open>
  \<^bold>\<open>C9\<close>. For every tunnel ID given to it, \<^verbatim>\<open>findCredentials\<close> returns credentials whose
  \<^verbatim>\<open>TunnelID\<close> is that ID, whatever the credentials file or the option
  \<^verbatim>\<open>TUNNEL_CRED_CONTENTS\<close> holds and whether or not an error is returned with them.
\<close>

theorem findCredentials_TunnelID:
  "TunnelID (fst (findCredentials env tunnelID)) = tunnelID"
  by (simp add: findCredentials_def Let_def split: prod.splits)

text \<open>The tunnel ID is set beside an error, over an ID decoded from the option.\<close>

lemma findCredentials_with_error:
  "findCredentials contents_env 42 =
     (stale_Credentials\<lparr>TunnelID := 42\<rparr>,
      Some (errInvalidJSONCredential ''TUNNEL_CRED_CONTENTS'' (opaque ''bad json'')))"
  by (simp add: findCredentials_def contents_env_def)

lemma findCredentials_other_fields:
  "CredContentsFlag env \<noteq> [] \<Longrightarrow>
   findCredentials env tunnelID =
     ((fst (json_Unmarshal env (CredContentsFlag env) zero_Credentials))\<lparr>TunnelID := tunnelID\<rparr>,
      map_option (errInvalidJSONCredential ''TUNNEL_CRED_CONTENTS'')
        (snd (json_Unmarshal env (CredContentsFlag env) zero_Credentials)))"
  by (auto simp: findCredentials_def split: prod.splits option.splits)

lemma convert_loop_bad:
  "snd (convert_loop P m i inputs (ids, bad)) = bad @ filter (\<lambda>x. \<not> resolvable P m x) inputs"
  by (induction inputs arbitrary: i ids bad)
     (auto simp: resolvable_def split: option.splits)

lemma convert_loop_length:
  "length (fst (convert_loop P m i inputs (ids, bad))) = length ids"
  by (induction inputs arbitrary: i ids bad) (auto split: option.splits)

lemma convert_loop_nth:
  assumes "i + length inputs \<le> length ids"
  shows "fst (convert_loop P m i inputs (ids, bad)) ! k =
     (if i \<le> k \<and> k < i + length inputs \<and> resolvable P m (inputs ! (k - i))
      then the (resolve P m (inputs ! (k - i))) else ids ! k)"
  using assms
proof (induction inputs arbitrary: i ids bad)
  case Nil
  then show ?case by auto
next
  case (Cons x xs)
  have len: "Suc i + length xs \<le> length ids" using Cons.prems by simp
  show ?case
  proof (cases "resolve P m x")
    case None
    then have nr: "\<not> resolvable P m x" and px: "P x = None" and mx: "m x = None"
      by (auto simp: resolve_def resolvable_def split: option.splits)
    have "fst (convert_loop P m i (x # xs) (ids, bad)) ! k =
          fst (convert_loop P m (Suc i) xs (ids, bad @ [x])) ! k"
      by (simp add: px mx)
    also have "\<dots> = (if Suc i \<le> k \<and> k < Suc i + length xs \<and> resolvable P m (xs ! (k - Suc i))
      then the (resolve P m (xs ! (k - Suc i))) else ids ! k)"
      by (rule Cons.IH[OF len])
    also have "\<dots> = (if i \<le> k \<and> k < i + length (x # xs) \<and> resolvable P m ((x # xs) ! (k - i))
      then the (resolve P m ((x # xs) ! (k - i))) else ids ! k)"
      using nr by (cases "k = i") (auto simp: nth_Cons' Suc_diff_le)
    finally show ?thesis .
  next
    case (Some u)
    then have r: "resolvable P m x"
      by (auto simp: resolve_def resolvable_def split: option.splits)
    have len': "Suc i + length xs \<le> length (ids[i := u])" using len by simp
    have "fst (convert_loop P m i (x # xs) (ids, bad)) ! k =
          fst (convert_loop P m (Suc i) xs (ids[i := u], bad)) ! k"
      using Some by (auto simp: resolve_def split: option.splits)
    also have "\<dots> = (if Suc i \<le> k \<and> k < Suc i + length xs \<and> resolvable P m (xs ! (k - Suc i))
      then the (resolve P m (xs ! (k - Suc i))) else ids[i := u] ! k)"
      by (rule Cons.IH[OF len'])
    also have "\<dots> = (if i \<le> k \<and> k < i + length (x # xs) \<and> resolvable P m ((x # xs) ! (k - i))
      then the (resolve P m ((x # xs) ! (k - i))) else ids ! k)"
      using r Some len by (cases "k = i") (auto simp: nth_Cons' Suc_diff_le)
    finally show ?thesis .
  qed
qed

lemma sublist_prepend: "sublist x ys \<Longrightarrow> sublist x (ps @ ys)"
  by (auto simp: sublist_def) (metis append.assoc)

lemma resolvable_resolve: "resolvable P m x \<Longrightarrow> \<exists>u. resolve P m x = Some u"
  by (cases "P x") (auto simp: resolvable_def resolve_def)

lemma Join_sublist:
  "x \<in> set xs \<Longrightarrow> sublist x (Join xs sep)"
proof (induction xs sep rule: Join.induct)
  case (1 sep)
  then show ?case by simp
next
  case (2 y sep)
  then show ?case by simp
next
  case (3 y z zs sep)
  show ?case
  proof (cases "x = y")
    case True
    then show ?thesis by simp
  next
    case False
    with 3 have "sublist x (Join (z # zs) sep)" by simp
    then have "sublist x ((y @ sep) @ Join (z # zs) sep)" by (rule sublist_prepend)
    then show ?thesis by simp
  qed
qed

text \<open>
  \<^bold>\<open>C10\<close>. \<^verbatim>\<open>convertNamesToUuids(inputs, nameToID)\<close> succeeds if and only if every input
  either parses as a UUID or is a key of \<open>nameToID\<close>. On success the list returned is as
  long as \<open>inputs\<close>, and its \<open>k\<close>-th element is the parsed UUID of the \<open>k\<close>-th input or,
  when that does not parse, the ID \<open>nameToID\<close> maps it to. On failure the error message is
  the fixed text followed by the inputs that are neither, in their order and joined by
  \<open>'', ''\<close>, so each of them occurs in the message.
\<close>

theorem convertNamesToUuids_correct:
  "((\<exists>ids. convertNamesToUuids P inputs m = Inr ids) \<longleftrightarrow>
      (\<forall>x\<in>set inputs. resolvable P m x)) \<and>
   (convertNamesToUuids P inputs m = Inr ids \<longrightarrow>
      length ids = length inputs \<and>
      (\<forall>k < length inputs. resolve P m (inputs ! k) = Some (ids ! k))) \<and>
   (convertNamesToUuids P inputs m = Inl err \<longrightarrow>
      err = errorf (neither_msg @ Join (filter (\<lambda>x. \<not> resolvable P m x) inputs) '', '') \<and>
      (\<forall>x\<in>set inputs. \<not> resolvable P m x \<longrightarrow>
         (\<exists>msg. err = errorf msg \<and> sublist x msg)))"
proof -
  let ?r = "convert_loop P m 0 inputs (replicate (length inputs) uuid_Nil, [])"
  let ?bad = "filter (\<lambda>x. \<not> resolvable P m x) inputs"
  have bad: "snd ?r = ?bad" by (simp add: convert_loop_bad)
  have c: "convertNamesToUuids P inputs m =
     (if ?bad \<noteq> [] then Inl (errorf (neither_msg @ Join ?bad '', '')) else Inr (fst ?r))"
    using bad by (cases ?r) (simp add: convertNamesToUuids_def)
  have 1: "(\<exists>ids. convertNamesToUuids P inputs m = Inr ids) \<longleftrightarrow> (\<forall>x\<in>set inputs. resolvable P m x)"
    unfolding c by (auto simp: filter_empty_conv)
  have 2: "convertNamesToUuids P inputs m = Inr ids \<longrightarrow>
      length ids = length inputs \<and>
      (\<forall>k < length inputs. resolve P m (inputs ! k) = Some (ids ! k))"
  proof
    assume a: "convertNamesToUuids P inputs m = Inr ids"
    then have e: "?bad = []" and ids: "ids = fst ?r" unfolding c by (auto split: if_splits)
    from e have all: "\<forall>x\<in>set inputs. resolvable P m x" by (auto simp: filter_empty_conv)
    have l: "length ids = length inputs" unfolding ids by (simp add: convert_loop_length)
    have "resolve P m (inputs ! k) = Some (ids ! k)" if k: "k < length inputs" for k
    proof -
      from all k have rk: "resolvable P m (inputs ! k)" by simp
      then obtain u where u: "resolve P m (inputs ! k) = Some u"
        using resolvable_resolve by blast
      have "ids ! k = the (resolve P m (inputs ! k))"
        unfolding ids using convert_loop_nth[of 0 inputs "replicate (length inputs) uuid_Nil" P m "[]" k] k rk
        by simp
      with u show ?thesis by simp
    qed
    with l show "length ids = length inputs \<and>
      (\<forall>k < length inputs. resolve P m (inputs ! k) = Some (ids ! k))" by blast
  qed
  have 3: "convertNamesToUuids P inputs m = Inl err \<longrightarrow>
      err = errorf (neither_msg @ Join ?bad '', '') \<and>
      (\<forall>x\<in>set inputs. \<not> resolvable P m x \<longrightarrow> (\<exists>msg. err = errorf msg \<and> sublist x msg))"
  proof
    assume a: "convertNamesToUuids P inputs m = Inl err"
    then have e: "err = errorf (neither_msg @ Join ?bad '', '')" unfolding c by (auto split: if_splits)
    have "\<exists>msg. err = errorf msg \<and> sublist x msg" if "x \<in> set inputs" "\<not> resolvable P m x" for x
    proof -
      from that have "x \<in> set ?bad" by simp
      then have "sublist x (Join ?bad '', '')" by (rule Join_sublist)
      then have "sublist x (neither_msg @ Join ?bad '', '')" by (rule sublist_prepend)
      with e show ?thesis by blast
    qed
    with e show "err = errorf (neither_msg @ Join ?bad '', '') \<and>
      (\<forall>x\<in>set inputs. \<not> resolvable P m x \<longrightarrow> (\<exists>msg. err = errorf msg \<and> sublist x msg))" by blast
  qed
  from 1 2 3 show ?thesis by (intro conjI)
qed

text \<open>A run that succeeds, the UUID's text being parsed although it is a name too, and one that fails.\<close>

theorem convertNamesToUuids_correct_witness:
  "convertNamesToUuids test_Parse [''00000000-0000-0000-0000-000000000001'', ''web''] test_names =
     Inr [1, 2] \<and>
   resolvable test_Parse test_names ''00000000-0000-0000-0000-000000000001'' \<and>
   resolvable test_Parse test_names ''web'' \<and>
   convertNamesToUuids test_Parse [''web'', ''nope'', ''db''] test_names =
     Inl (errorf (neither_msg @ ''nope, db'')) \<and>
   (\<exists>msg. errorf (neither_msg @ ''nope, db'') = errorf msg \<and> sublist ''db'' msg)"
proof -
  let ?ok = "[''00000000-0000-0000-0000-000000000001'', ''web'']"
  let ?ko = "[''web'', ''nope'', ''db'']"
  have a: "convertNamesToUuids test_Parse ?ok test_names = Inr [1, 2]"
    by (simp add: convertNamesToUuids_def test_Parse_def test_names_def uuid_Nil_def)
  have b: "convertNamesToUuids test_Parse ?ko test_names = Inl (errorf (neither_msg @ ''nope, db''))"
    by (simp add: convertNamesToUuids_def test_Parse_def test_names_def uuid_Nil_def)
  from a have "\<exists>ids. convertNamesToUuids test_Parse ?ok test_names = Inr ids" by (rule exI)
  with convertNamesToUuids_correct[where P=test_Parse and inputs="?ok" and m=test_names,
      THEN conjunct1]
  have c: "\<forall>x\<in>set ?ok. resolvable test_Parse test_names x" by (rule iffD1)
  have nr: "\<not> resolvable test_Parse test_names ''db''"
    by (simp add: resolvable_def test_Parse_def test_names_def)
  note th = convertNamesToUuids_correct[where P=test_Parse and inputs="?ko" and m=test_names
      and err="errorf (neither_msg @ ''nope, db'')", THEN conjunct2, THEN conjunct2, THEN mp,
      OF b, THEN conjunct2]
  have mem: "''db'' \<in> set ?ko" by simp
  from th[THEN bspec, OF mem, THEN mp, OF nr]
  have d: "\<exists>msg. errorf (neither_msg @ ''nope, db'') = errorf msg \<and> sublist ''db'' msg" .
  from c have c1: "resolvable test_Parse test_names ''00000000-0000-0000-0000-000000000001''"
    and c2: "resolvable test_Parse test_names ''web''" by simp_all
  from a c1 c2 b d show ?thesis by (intro conjI)
qed

end
